theory Spec2Isabelle
  imports Main
begin

section \<open>Lua values, heap and interpreter state\<close>

text \<open>
  The file \<^verbatim>\<open>hslua-packaging/cbits/hslpackaging.c\<close> is written against the C API of
  Lua 5.3 (\<^verbatim>\<open>lua_rawget\<close> and \<^verbatim>\<open>lua_getuservalue\<close> return the type of the pushed
  value; a full userdata carries one user value). The API itself is not part of the
  repository; the functions the file calls are modelled below after the reference
  implementation (\<^verbatim>\<open>lapi.c\<close>, \<^verbatim>\<open>lauxlib.c\<close>, \<^verbatim>\<open>ltable.c\<close>, \<^verbatim>\<open>lvm.c\<close>,
  \<^verbatim>\<open>ldo.c\<close>, \<^verbatim>\<open>ltm.c\<close> of Lua 5.3), one definition per API function, under its C name.

  Objects with identity (tables, full userdata, functions) are addresses into a heap.
  Numbers are restricted to the integer subtype; floating-point keys are not modelled.
\<close>

datatype lua_type =
  LUA_TNONE | LUA_TNIL | LUA_TBOOLEAN | LUA_TLIGHTUSERDATA | LUA_TNUMBER
  | LUA_TSTRING | LUA_TTABLE | LUA_TFUNCTION | LUA_TUSERDATA | LUA_TTHREAD

datatype val =
  VNil | VBool bool | VLightUserdata nat | VNum int | VStr string
  | VTable nat | VFun nat | VUserdata nat | VThread nat

fun ttnov :: "val \<Rightarrow> lua_type" where
  "ttnov VNil = LUA_TNIL"
| "ttnov (VBool _) = LUA_TBOOLEAN"
| "ttnov (VLightUserdata _) = LUA_TLIGHTUSERDATA"
| "ttnov (VNum _) = LUA_TNUMBER"
| "ttnov (VStr _) = LUA_TSTRING"
| "ttnov (VTable _) = LUA_TTABLE"
| "ttnov (VFun _) = LUA_TFUNCTION"
| "ttnov (VUserdata _) = LUA_TUSERDATA"
| "ttnov (VThread _) = LUA_TTHREAD"

text \<open>
  A table maps keys to values, and a key is absent exactly when its value is nil.
  \<open>tables h a\<close> is the content of the table at address \<open>a\<close>, \<open>tmeta h a\<close> its
  metatable. \<open>uservalue h u\<close> and \<open>umeta h u\<close> are the user value and the metatable of
  the full userdata at address \<open>u\<close>. \<open>G_mt h\<close> holds the metatables shared by all values
  of a basic type. Tables are allocated at increasing addresses; \<open>ntables h\<close> is the
  next free one.
\<close>

record lua_heap =
  tables :: "nat \<Rightarrow> val \<Rightarrow> val"
  tmeta :: "nat \<Rightarrow> nat option"
  uservalue :: "nat \<Rightarrow> val"
  umeta :: "nat \<Rightarrow> nat option"
  G_mt :: "lua_type \<Rightarrow> nat option"
  ntables :: nat

text \<open>
  The trace is ghost state: it records, in order, every \<^verbatim>\<open>lua_call\<close> (the called value
  and its arguments) and every \<^verbatim>\<open>lua_gettable\<close> (the indexed value and the key) that
  the C functions of this file issue. These are the two places where control leaves
  the file and may reach host code.
\<close>

datatype event = Called val "val list" | Indexed val val

text \<open>
  \<open>stack\<close> is the part of the Lua stack that belongs to the running C function:
  index 1 is the head of the list, the top is its last element.
\<close>

record lua_State =
  stack :: "val list"
  heap :: lua_heap
  trace :: "event list"

text \<open>
  Errors unwind the C function (\<^verbatim>\<open>longjmp\<close>); the state at the moment of the raise
  is kept with the error. \<open>ApiViolation\<close> stands for a violated precondition of an
  API function (\<^verbatim>\<open>api_check\<close>), which is undefined behaviour in C.
\<close>

datatype lua_err =
  ErrorValue val
  | ArgError int string
  | RunError string
  | TypeError val string
  | ApiViolation

type_synonym 'a lua = "lua_State \<Rightarrow> (lua_err \<times> lua_State) + ('a \<times> lua_State)"

definition ret :: "'a \<Rightarrow> 'a lua" where
  "ret x L = Inr (x, L)"

definition raise :: "lua_err \<Rightarrow> 'a lua" where
  "raise e L = Inl (e, L)"

definition bnd :: "'a lua \<Rightarrow> ('a \<Rightarrow> 'b lua) \<Rightarrow> 'b lua" where
  "bnd m f L = (case m L of Inl e \<Rightarrow> Inl e | Inr (x, L') \<Rightarrow> f x L')"

text \<open>
  Functions are opaque values. What calling one does is a parameter of the model:
  \<open>cf f args h\<close> is the outcome of calling function \<open>f\<close> on \<open>args\<close> in heap \<open>h\<close>,
  either an error or the list of results, each with the heap the callee leaves behind.
  A callee that does not return is not represented.
\<close>

type_synonym callf = "nat \<Rightarrow> val list \<Rightarrow> lua_heap \<Rightarrow> (lua_err \<times> lua_heap) + (val list \<times> lua_heap)"

section \<open>The Lua C API\<close>

subsection \<open>Stack indices\<close>

text \<open>
  \<^verbatim>\<open>index2addr\<close>: a positive index counts from the base of the frame, a negative one
  from the top. The result is the position in the list, or \<open>None\<close> when no stack slot
  is addressed. Pseudo-indices are not used by the file.
\<close>

definition index2addr :: "int \<Rightarrow> val list \<Rightarrow> nat option" where
  "index2addr idx st =
     (if 0 < idx then (if nat idx \<le> length st then Some (nat idx - 1) else None)
      else if idx < 0 \<and> nat (- idx) \<le> length st then Some (length st - nat (- idx))
      else None)"

text \<open>
  The value an index denotes. A positive index above the top is acceptable and
  denotes the nil object (\<^verbatim>\<open>NONVALIDVALUE\<close>); any other index outside the stack
  violates the API.
\<close>

definition index2value :: "int \<Rightarrow> val list \<Rightarrow> val option" where
  "index2value idx st =
     (case index2addr idx st of
        Some i \<Rightarrow> Some (st ! i)
      | None \<Rightarrow> (if 0 < idx then Some VNil else None))"

definition lua_absindex :: "int \<Rightarrow> lua_State \<Rightarrow> int" where
  "lua_absindex idx L = (if 0 < idx then idx else int (length (stack L)) + idx + 1)"

text \<open>
  \<^verbatim>\<open>lua_type\<close> answers \<^verbatim>\<open>LUA_TNONE\<close> for an index that denotes no stack slot. (For
  a positive index this is what the API specifies; the file never passes another one
  that is outside the stack.)
\<close>

definition lua_type :: "int \<Rightarrow> lua_State \<Rightarrow> lua_type" where
  "lua_type idx L =
     (case index2addr idx (stack L) of None \<Rightarrow> LUA_TNONE | Some i \<Rightarrow> ttnov (stack L ! i))"

definition lua_settop :: "int \<Rightarrow> unit lua" where
  "lua_settop idx L =
     (if 0 \<le> idx then
        ret () (L\<lparr>stack := take (nat idx) (stack L)
                          @ replicate (nat idx - length (stack L)) VNil\<rparr>)
      else if nat (- (idx + 1)) \<le> length (stack L) then
        ret () (L\<lparr>stack := take (length (stack L) - nat (- (idx + 1))) (stack L)\<rparr>)
      else raise ApiViolation L)"

definition lua_pop :: "int \<Rightarrow> unit lua" where
  "lua_pop n = lua_settop (- n - 1)"

definition lua_pushvalue :: "int \<Rightarrow> unit lua" where
  "lua_pushvalue idx L =
     (case index2value idx (stack L) of
        Some v \<Rightarrow> ret () (L\<lparr>stack := stack L @ [v]\<rparr>)
      | None \<Rightarrow> raise ApiViolation L)"

definition lua_pushnil :: "unit lua" where
  "lua_pushnil L = ret () (L\<lparr>stack := stack L @ [VNil]\<rparr>)"

definition lua_pushstring :: "string \<Rightarrow> unit lua" where
  "lua_pushstring s L = ret () (L\<lparr>stack := stack L @ [VStr s]\<rparr>)"

definition lua_pushliteral :: "string \<Rightarrow> unit lua" where
  "lua_pushliteral s = lua_pushstring s"

text \<open>\<^verbatim>\<open>lua_insert(L, idx)\<close> is \<^verbatim>\<open>lua_rotate(L, idx, 1)\<close>: the top moves to \<open>idx\<close>.\<close>

definition lua_insert :: "int \<Rightarrow> unit lua" where
  "lua_insert idx L =
     (case index2addr idx (stack L) of
        Some i \<Rightarrow> ret () (L\<lparr>stack := take i (stack L) @ [last (stack L)]
                                     @ butlast (drop i (stack L))\<rparr>)
      | None \<Rightarrow> raise ApiViolation L)"

text \<open>\<^verbatim>\<open>lua_remove(L, idx)\<close> is \<^verbatim>\<open>lua_rotate(L, idx, -1)\<close> followed by \<^verbatim>\<open>lua_pop(L, 1)\<close>.\<close>

definition lua_remove :: "int \<Rightarrow> unit lua" where
  "lua_remove idx L =
     (case index2addr idx (stack L) of
        Some i \<Rightarrow> ret () (L\<lparr>stack := take i (stack L) @ drop (Suc i) (stack L)\<rparr>)
      | None \<Rightarrow> raise ApiViolation L)"

text \<open>\<^verbatim>\<open>lua_error\<close> raises with the value on top of the stack as the error object.\<close>

definition lua_error :: "int lua" where
  "lua_error L =
     (if stack L = [] then raise ApiViolation L else raise (ErrorValue (last (stack L))) L)"

subsection \<open>Tables\<close>

text \<open>\<^verbatim>\<open>luaH_get\<close>: a raw read; the nil key is never present.\<close>

definition luaH_get :: "lua_heap \<Rightarrow> nat \<Rightarrow> val \<Rightarrow> val" where
  "luaH_get h a k = (if k = VNil then VNil else tables h a k)"

text \<open>
  The store done by \<^verbatim>\<open>lua_rawset\<close> once \<^verbatim>\<open>luaH_set\<close> has found or made the slot.
  Storing nil leaves the key absent.
\<close>

definition luaH_store :: "lua_heap \<Rightarrow> nat \<Rightarrow> val \<Rightarrow> val \<Rightarrow> lua_heap" where
  "luaH_store h a k v = h\<lparr>tables := (tables h)(a := (tables h a)(k := v))\<rparr>"

definition lua_rawget :: "int \<Rightarrow> lua_type lua" where
  "lua_rawget idx L =
     (case index2value idx (stack L) of
        Some (VTable a) \<Rightarrow>
          (if stack L = [] then raise ApiViolation L
           else let v = luaH_get (heap L) a (last (stack L))
                in ret (ttnov v) (L\<lparr>stack := butlast (stack L) @ [v]\<rparr>))
      | _ \<Rightarrow> raise ApiViolation L)"

text \<open>
  \<^verbatim>\<open>lua_rawset\<close>: key at top - 2, value at top - 1. \<^verbatim>\<open>luaH_set\<close> raises on a nil key
  before anything is stored.
\<close>

definition lua_rawset :: "int \<Rightarrow> unit lua" where
  "lua_rawset idx L =
     (case index2value idx (stack L) of
        Some (VTable a) \<Rightarrow>
          (if length (stack L) < 2 then raise ApiViolation L
           else let k = stack L ! (length (stack L) - 2); v = last (stack L)
                in if k = VNil then raise (RunError ''table index is nil'') L
                   else ret () (L\<lparr>stack := take (length (stack L) - 2) (stack L),
                                   heap := luaH_store (heap L) a k v\<rparr>))
      | _ \<Rightarrow> raise ApiViolation L)"

definition lua_createtable :: "int \<Rightarrow> int \<Rightarrow> unit lua" where
  "lua_createtable narr nrec L =
     (let h = heap L; a = ntables h
      in ret () (L\<lparr>stack := stack L @ [VTable a],
                    heap := h\<lparr>tables := (tables h)(a := (\<lambda>_. VNil)),
                              tmeta := (tmeta h)(a := None),
                              ntables := Suc a\<rparr>\<rparr>))"

subsection \<open>Userdata and metatables\<close>

definition lua_getuservalue :: "int \<Rightarrow> lua_type lua" where
  "lua_getuservalue idx L =
     (case index2value idx (stack L) of
        Some (VUserdata u) \<Rightarrow>
          (let v = uservalue (heap L) u in ret (ttnov v) (L\<lparr>stack := stack L @ [v]\<rparr>))
      | _ \<Rightarrow> raise ApiViolation L)"

text \<open>The index is resolved before the value is popped.\<close>

definition lua_setuservalue :: "int \<Rightarrow> unit lua" where
  "lua_setuservalue idx L =
     (if stack L = [] then raise ApiViolation L
      else case index2value idx (stack L) of
        Some (VUserdata u) \<Rightarrow>
          ret () (L\<lparr>stack := butlast (stack L),
                    heap := (heap L)\<lparr>uservalue := (uservalue (heap L))(u := last (stack L))\<rparr>\<rparr>)
      | _ \<Rightarrow> raise ApiViolation L)"

definition metatable_of :: "lua_heap \<Rightarrow> val \<Rightarrow> nat option" where
  "metatable_of h v =
     (case v of VTable a \<Rightarrow> tmeta h a
      | VUserdata u \<Rightarrow> umeta h u
      | _ \<Rightarrow> G_mt h (ttnov v))"

definition lua_getmetatable :: "int \<Rightarrow> bool lua" where
  "lua_getmetatable objindex L =
     (case index2value objindex (stack L) of
        Some obj \<Rightarrow>
          (case metatable_of (heap L) obj of
             Some mt \<Rightarrow> ret True (L\<lparr>stack := stack L @ [VTable mt]\<rparr>)
           | None \<Rightarrow> ret False L)
      | None \<Rightarrow> raise ApiViolation L)"

definition luaL_getmetafield :: "int \<Rightarrow> string \<Rightarrow> lua_type lua" where
  "luaL_getmetafield obj event =
     bnd (lua_getmetatable obj) (\<lambda>found.
     if \<not> found then ret LUA_TNIL
     else
     bnd (lua_pushstring event) (\<lambda>_.
     bnd (lua_rawget (- 2)) (\<lambda>tt.
     if tt = LUA_TNIL then bnd (lua_pop 2) (\<lambda>_. ret tt)
     else bnd (lua_remove (- 2)) (\<lambda>_. ret tt))))"

subsection \<open>Argument checks\<close>

definition luaL_checkany :: "int \<Rightarrow> unit lua" where
  "luaL_checkany arg L =
     (if lua_type arg L = LUA_TNONE then raise (ArgError arg ''value expected'') L
      else ret () L)"

text \<open>
  \<^verbatim>\<open>luaL_checktype\<close> raises an argument error whose message names the expected and
  the actual type; the model keeps the argument number and the expected type.
\<close>

fun lua_typename :: "lua_type \<Rightarrow> string" where
  "lua_typename LUA_TNONE = ''no value''"
| "lua_typename LUA_TNIL = ''nil''"
| "lua_typename LUA_TBOOLEAN = ''boolean''"
| "lua_typename LUA_TLIGHTUSERDATA = ''userdata''"
| "lua_typename LUA_TNUMBER = ''number''"
| "lua_typename LUA_TSTRING = ''string''"
| "lua_typename LUA_TTABLE = ''table''"
| "lua_typename LUA_TFUNCTION = ''function''"
| "lua_typename LUA_TUSERDATA = ''userdata''"
| "lua_typename LUA_TTHREAD = ''thread''"

definition luaL_checktype :: "int \<Rightarrow> lua_type \<Rightarrow> unit lua" where
  "luaL_checktype arg t L =
     (if lua_type arg L \<noteq> t then raise (ArgError arg (lua_typename t @ '' expected'')) L
      else ret () L)"

subsection \<open>Calls and indexing with metamethods\<close>

definition luaT_gettmbyobj :: "lua_heap \<Rightarrow> val \<Rightarrow> string \<Rightarrow> val" where
  "luaT_gettmbyobj h obj event =
     (case metatable_of h obj of None \<Rightarrow> VNil | Some mt \<Rightarrow> luaH_get h mt (VStr event))"

text \<open>
  \<^verbatim>\<open>luaD_call\<close>: a function is called; any other value is called through its
  \<^verbatim>\<open>__call\<close> metamethod, which must be a function and receives the value as first
  argument.
\<close>

definition luaD_call :: "callf \<Rightarrow> val \<Rightarrow> val list \<Rightarrow> lua_heap
    \<Rightarrow> (lua_err \<times> lua_heap) + (val list \<times> lua_heap)" where
  "luaD_call cf fv args h =
     (case fv of
        VFun f \<Rightarrow> cf f args h
      | _ \<Rightarrow> (case luaT_gettmbyobj h fv ''__call'' of
                VFun f \<Rightarrow> cf f (fv # args) h
              | _ \<Rightarrow> Inl (TypeError fv ''call'', h)))"

text \<open>Results of a call are padded with nil or cut to the number the caller asked for.\<close>

definition adjust_results :: "nat \<Rightarrow> val list \<Rightarrow> val list" where
  "adjust_results n rs = take n rs @ replicate (n - length rs) VNil"

definition lua_call :: "callf \<Rightarrow> nat \<Rightarrow> nat \<Rightarrow> unit lua" where
  "lua_call cf nargs nresults L =
     (if length (stack L) < nargs + 1 then raise ApiViolation L
      else let base = take (length (stack L) - (nargs + 1)) (stack L);
               fv = stack L ! (length (stack L) - (nargs + 1));
               args = drop (length (stack L) - nargs) (stack L);
               L1 = L\<lparr>trace := trace L @ [Called fv args]\<rparr>
           in case luaD_call cf fv args (heap L) of
                Inl (e, h') \<Rightarrow> raise e (L1\<lparr>heap := h'\<rparr>)
              | Inr (rs, h') \<Rightarrow>
                  ret () (L1\<lparr>stack := base @ adjust_results nresults rs, heap := h'\<rparr>))"

definition MAXTAGLOOP :: nat where
  "MAXTAGLOOP = 2000"

text \<open>
  \<^verbatim>\<open>luaT_callTM\<close> with one result: the metamethod, known to be a function, is called on
  the indexed value and the key.
\<close>

definition luaT_callTM :: "callf \<Rightarrow> nat \<Rightarrow> val \<Rightarrow> val \<Rightarrow> lua_heap
    \<Rightarrow> (lua_err \<times> lua_heap) + (val \<times> lua_heap)" where
  "luaT_callTM cf f p1 p2 h =
     (case cf f [p1, p2] h of
        Inl e \<Rightarrow> Inl e
      | Inr (rs, h') \<Rightarrow> Inr (hd (adjust_results 1 rs), h'))"

text \<open>
  \<^verbatim>\<open>luaV_finishget\<close>: the loop over the \<^verbatim>\<open>__index\<close> chain. The first argument is the
  number of iterations left (\<^verbatim>\<open>MAXTAGLOOP - loop\<close>). On entry \<open>t\<close> is either not a
  table, or a table that does not hold \<open>key\<close>. A value without \<^verbatim>\<open>__index\<close> yields nil
  when it is a table and a type error otherwise; a function as \<^verbatim>\<open>__index\<close> is called;
  any other \<^verbatim>\<open>__index\<close> is indexed in turn, raw first when it is a table.
\<close>

fun luaV_finishget :: "callf \<Rightarrow> nat \<Rightarrow> val \<Rightarrow> val \<Rightarrow> lua_heap
    \<Rightarrow> (lua_err \<times> lua_heap) + (val \<times> lua_heap)" where
  "luaV_finishget cf 0 t key h = Inl (RunError ''__index chain too long; possibly a loop'', h)"
| "luaV_finishget cf (Suc n) t key h =
     (case luaT_gettmbyobj h t ''__index'' of
        VNil \<Rightarrow>
          (case t of VTable _ \<Rightarrow> Inr (VNil, h) | _ \<Rightarrow> Inl (TypeError t ''index'', h))
      | VFun f \<Rightarrow> luaT_callTM cf f t key h
      | VTable a \<Rightarrow>
          (if luaH_get h a key \<noteq> VNil then Inr (luaH_get h a key, h)
           else luaV_finishget cf n (VTable a) key h)
      | tm \<Rightarrow> luaV_finishget cf n tm key h)"

definition luaV_gettable :: "callf \<Rightarrow> val \<Rightarrow> val \<Rightarrow> lua_heap
    \<Rightarrow> (lua_err \<times> lua_heap) + (val \<times> lua_heap)" where
  "luaV_gettable cf t key h =
     (case t of
        VTable a \<Rightarrow>
          (let v = luaH_get h a key
           in if v \<noteq> VNil then Inr (v, h) else luaV_finishget cf MAXTAGLOOP t key h)
      | _ \<Rightarrow> luaV_finishget cf MAXTAGLOOP t key h)"

definition lua_gettable :: "callf \<Rightarrow> int \<Rightarrow> lua_type lua" where
  "lua_gettable cf idx L =
     (case index2value idx (stack L) of
        Some t \<Rightarrow>
          (if stack L = [] then raise ApiViolation L
           else let key = last (stack L);
                    L1 = L\<lparr>trace := trace L @ [Indexed t key]\<rparr>
                in case luaV_gettable cf t key (heap L) of
                     Inl (e, h') \<Rightarrow> raise e (L1\<lparr>heap := h'\<rparr>)
                   | Inr (v, h') \<Rightarrow>
                       ret (ttnov v) (L1\<lparr>stack := butlast (stack L) @ [v], heap := h'\<rparr>))
      | None \<Rightarrow> raise ApiViolation L)"

section \<open>The C functions of hslpackaging.c\<close>

text \<open>
  Each function is the C body statement by statement; the integer returned is the
  number of results, which are the topmost values of the stack. In
  \<open>hslua_cachedindex\<close> the block guarded by the \<^verbatim>\<open>getters\<close> lookup either returns
  from the function (\<open>Some n\<close>) or falls through to the statements after it (\<open>None\<close>).
\<close>

definition hslua_wrappedudindex :: "callf \<Rightarrow> int lua" where
  "hslua_wrappedudindex cf =
     bnd (luaL_checktype 1 LUA_TTABLE) (\<lambda>_.
     bnd (lua_settop 2) (\<lambda>_.
     bnd (lua_pushvalue 2) (\<lambda>_.
     bnd (lua_rawget 1) (\<lambda>ty.
     if ty \<noteq> LUA_TNIL then ret 1
     else
     bnd (lua_pop 1) (\<lambda>_.
     bnd (lua_pushliteral ''_hslua_value'') (\<lambda>_.
     bnd (lua_rawget 1) (\<lambda>ty.
     if ty \<noteq> LUA_TUSERDATA then
       bnd (lua_pushliteral ''Corrupted object, wrapped userdata not found.'') (\<lambda>_.
       lua_error)
     else
     bnd (lua_pushvalue 2) (\<lambda>_.
     bnd (lua_gettable cf (- 2)) (\<lambda>ty.
     if ty \<noteq> LUA_TNIL then
       bnd (lua_pushvalue 2) (\<lambda>_.
       bnd (lua_pushvalue (- 2)) (\<lambda>_.
       bnd (lua_rawset 1) (\<lambda>_.
       ret 1)))
     else
     bnd lua_pushnil (\<lambda>_.
     ret 1))))))))))"

text \<open>The local \<^verbatim>\<open>absidx\<close> is computed and never used; \<^verbatim>\<open>idx\<close> is used throughout.\<close>

definition hsluaP_get_caching_table :: "int \<Rightarrow> unit lua" where
  "hsluaP_get_caching_table idx L =
     (let absidx = lua_absindex idx L
      in bnd (lua_getuservalue idx) (\<lambda>ty.
         if ty = LUA_TNIL then
           bnd (lua_pop 1) (\<lambda>_.
           bnd (lua_createtable 0 0) (\<lambda>_.
           bnd (lua_pushvalue (- 1)) (\<lambda>_.
           lua_setuservalue idx)))
         else ret ()) L)"

definition hslua_cachedindex :: "callf \<Rightarrow> int lua" where
  "hslua_cachedindex cf =
     bnd (lua_settop 2) (\<lambda>_.
     bnd (hsluaP_get_caching_table 1) (\<lambda>_.
     bnd (lua_pushvalue 2) (\<lambda>_.
     bnd (lua_rawget 3) (\<lambda>ty.
     if ty \<noteq> LUA_TNIL then ret 1
     else
     bnd (lua_pop 1) (\<lambda>_.
     bnd (luaL_getmetafield 1 ''getters'') (\<lambda>ty.
     bnd (if ty = LUA_TTABLE then
            bnd (lua_pushvalue 2) (\<lambda>_.
            bnd (lua_rawget (- 2)) (\<lambda>ty.
            if ty \<noteq> LUA_TNIL then
              bnd (lua_pushvalue 1) (\<lambda>_.
              bnd (lua_call cf 1 1) (\<lambda>_.
              bnd (lua_pushvalue 2) (\<lambda>_.
              bnd (lua_pushvalue (- 2)) (\<lambda>_.
              bnd (lua_rawset 3) (\<lambda>_.
              ret (Some 1))))))
            else
            bnd (lua_pop 1) (\<lambda>_.
            ret None)))
          else ret None) (\<lambda>returned.
     case returned of
       Some n \<Rightarrow> ret n
     | None \<Rightarrow>
     bnd (luaL_getmetafield 1 ''methods'') (\<lambda>ty.
     if ty = LUA_TTABLE then
       bnd (lua_pushvalue 2) (\<lambda>_.
       bnd (lua_rawget (- 2)) (\<lambda>_.
       ret 1))
     else
     bnd (lua_pop 1) (\<lambda>_.
     bnd lua_pushnil (\<lambda>_.
     ret 1))))))))))"

definition hslua_cachedsetindex :: "int lua" where
  "hslua_cachedsetindex =
     bnd (luaL_checkany 3) (\<lambda>_.
     bnd (lua_settop 3) (\<lambda>_.
     bnd (hsluaP_get_caching_table 1) (\<lambda>_.
     bnd (lua_insert 2) (\<lambda>_.
     bnd (lua_rawset 2) (\<lambda>_.
     ret 0)))))"

section \<open>Observing a call\<close>

text \<open>
  A call of a C function from Lua: the arguments are the initial stack, the trace
  starts empty. The function either returns its topmost \<open>n\<close> values or raises; in both
  cases the heap and the trace it leaves are observed.
\<close>

datatype outcome =
  Returned "val list" lua_heap "event list"
  | Raised lua_err lua_heap "event list"

definition run :: "int lua \<Rightarrow> val list \<Rightarrow> lua_heap \<Rightarrow> outcome" where
  "run f args h =
     (case f \<lparr>stack = args, heap = h, trace = []\<rparr> of
        Inl (e, L) \<Rightarrow> Raised e (heap L) (trace L)
      | Inr (n, L) \<Rightarrow>
          Returned (drop (length (stack L) - nat n) (stack L)) (heap L) (trace L))"

fun out_heap :: "outcome \<Rightarrow> lua_heap" where
  "out_heap (Returned vs h tr) = h"
| "out_heap (Raised e h tr) = h"

fun out_trace :: "outcome \<Rightarrow> event list" where
  "out_trace (Returned vs h tr) = tr"
| "out_trace (Raised e h tr) = tr"

fun out_values :: "outcome \<Rightarrow> val list option" where
  "out_values (Returned vs h tr) = Some vs"
| "out_values (Raised e h tr) = None"

text \<open>
  The Cache of the Proxy \<open>p\<close> (a full userdata) is the table held as its user value;
  \<open>cache_entry h p k\<close> is what the Cache holds for \<open>k\<close>, nil when there is no Cache
  or no entry.
\<close>

definition cache_entry :: "lua_heap \<Rightarrow> nat \<Rightarrow> val \<Rightarrow> val" where
  "cache_entry h p k = (case uservalue h p of VTable c \<Rightarrow> luaH_get h c k | _ \<Rightarrow> VNil)"

text \<open>
  The class of \<open>p\<close> is its metatable. \<open>class_field h p name k\<close> is the entry for \<open>k\<close>
  in the table stored in the metatable under \<open>name\<close> (\<^verbatim>\<open>getters\<close> or \<^verbatim>\<open>methods\<close>),
  found the way \<open>hslua_cachedindex\<close> finds it; nil when there is no metatable, no
  such table, or no entry.
\<close>

definition class_field :: "lua_heap \<Rightarrow> nat \<Rightarrow> string \<Rightarrow> val \<Rightarrow> val" where
  "class_field h p name k =
     (case umeta h p of
        None \<Rightarrow> VNil
      | Some mt \<Rightarrow>
          (case luaH_get h mt (VStr name) of VTable t \<Rightarrow> luaH_get h t k | _ \<Rightarrow> VNil))"

text \<open>
  The tables of the class of \<open>p\<close> are allocated: their addresses are below the next
  free one, so that a table created later is none of them.
\<close>

definition allocated :: "lua_heap \<Rightarrow> val \<Rightarrow> bool" where
  "allocated h v = (case v of VTable a \<Rightarrow> a < ntables h | _ \<Rightarrow> True)"

definition class_allocated :: "lua_heap \<Rightarrow> nat \<Rightarrow> bool" where
  "class_allocated h p =
     (case umeta h p of
        None \<Rightarrow> True
      | Some mt \<Rightarrow>
          mt < ntables h \<and> allocated h (luaH_get h mt (VStr ''getters''))
          \<and> allocated h (luaH_get h mt (VStr ''methods'')))"

text \<open>
  A well-formed Proxy either has its Cache attached, or has no user value yet and a
  class whose tables are allocated.
\<close>

definition proxy_wf :: "lua_heap \<Rightarrow> nat \<Rightarrow> bool" where
  "proxy_wf h p =
     (case uservalue h p of
        VNil \<Rightarrow> class_allocated h p
      | VTable _ \<Rightarrow> True
      | _ \<Rightarrow> False)"

text \<open>
  The heap that \<open>hsluaP_get_caching_table\<close>, called on \<open>p\<close> at index 1, leaves: \<open>h\<close>
  itself when \<open>p\<close> has a user value, and \<open>h\<close> with a new empty table attached to
  \<open>p\<close> otherwise. It is the heap in which \<open>hslua_cachedindex\<close> calls a getter.
\<close>

definition with_cache :: "lua_heap \<Rightarrow> nat \<Rightarrow> lua_heap" where
  "with_cache h p =
     (case hsluaP_get_caching_table 1 \<lparr>stack = [VUserdata p], heap = h, trace = []\<rparr> of
        Inl (e, L) \<Rightarrow> heap L
      | Inr (u, L) \<Rightarrow> heap L)"

section \<open>A concrete heap\<close>

text \<open>
  Used to instantiate the theorems below.
  Table 0 is a class (metatable) with getters (table 1) and methods (table 2).
  Function 0, the getter for \<open>x\<close>, returns 7; function 1, the getter for \<open>y\<close>,
  returns no value; function 2 is the method \<open>m\<close>.
  Userdata 0 is a Proxy of that class without a Cache yet; userdata 2 is a Proxy of the
  same class whose Cache (table 7) holds 1 for \<open>x\<close>.
  Table 3 wraps userdata 1 under \<^verbatim>\<open>_hslua_value\<close>; userdata 1 has metatable 4, whose
  \<^verbatim>\<open>__index\<close> is table 5 with field \<open>x\<close> = 5. Table 6 is a wrapping table that has lost
  its handle and holds 1 for \<open>a\<close>.
\<close>

definition ex_tables :: "nat \<Rightarrow> val \<Rightarrow> val" where
  "ex_tables a k =
     (if a = 0 then
        (if k = VStr ''getters'' then VTable 1
         else if k = VStr ''methods'' then VTable 2 else VNil)
      else if a = 1 then
        (if k = VStr ''x'' then VFun 0 else if k = VStr ''y'' then VFun 1 else VNil)
      else if a = 2 then (if k = VStr ''m'' then VFun 2 else VNil)
      else if a = 3 then (if k = VStr ''_hslua_value'' then VUserdata 1 else VNil)
      else if a = 4 then (if k = VStr ''__index'' then VTable 5 else VNil)
      else if a = 5 then (if k = VStr ''x'' then VNum 5 else VNil)
      else if a = 6 then (if k = VStr ''a'' then VNum 1 else VNil)
      else if a = 7 then (if k = VStr ''x'' then VNum 1 else VNil)
      else VNil)"

definition ex_heap :: lua_heap where
  "ex_heap =
     \<lparr>tables = ex_tables,
      tmeta = (\<lambda>_. None),
      uservalue = (\<lambda>u. if u = 2 then VTable 7 else VNil),
      umeta = (\<lambda>u. if u = 0 \<or> u = 2 then Some 0 else if u = 1 then Some 4 else None),
      G_mt = (\<lambda>_. None),
      ntables = 8\<rparr>"

definition ex_cf :: callf where
  "ex_cf f args h =
     (if f = 0 then Inr ([VNum 7], h) else if f = 1 then Inr ([], h) else Inr ([VNil], h))"

text \<open>
  Another behaviour of the host functions: every function returns no value and makes
  table 7 the user value of userdata 0.
\<close>

definition ex_cf_detach :: callf where
  "ex_cf_detach f args h = Inr ([], h\<lparr>uservalue := (uservalue h)(0 := VTable 7)\<rparr>)"

section \<open>Basic facts about the API\<close>

lemmas api_defs =
  ret_def raise_def bnd_def index2addr_def index2value_def lua_type_def lua_settop_def
  lua_pop_def lua_pushvalue_def lua_pushnil_def lua_pushstring_def lua_pushliteral_def
  lua_insert_def lua_remove_def lua_error_def lua_rawget_def lua_rawset_def
  lua_createtable_def lua_getuservalue_def lua_setuservalue_def lua_getmetatable_def
  luaL_getmetafield_def luaL_checkany_def luaL_checktype_def

lemmas eval_defs =
  api_defs hsluaP_get_caching_table_def hslua_cachedindex_def hslua_cachedsetindex_def
  hslua_wrappedudindex_def run_def luaH_get_def luaH_store_def metatable_of_def
  luaT_gettmbyobj_def luaD_call_def lua_call_def adjust_results_def lua_gettable_def
  luaV_gettable_def ex_heap_def ex_tables_def ex_cf_def Let_def butlast_append

lemma ttnov_not_none [simp]: "ttnov v \<noteq> LUA_TNONE"
  by (cases v) simp_all

lemma not_nil_type: "v \<noteq> VNil \<Longrightarrow> ttnov v \<noteq> LUA_TNIL"
  by (cases v) simp_all

lemma adjust_results_one: "adjust_results (Suc 0) rs = [hd (adjust_results (Suc 0) rs)]"
  by (cases rs) (simp_all add: adjust_results_def)

lemma class_field_tm:
  "class_field h p name k =
     (case luaT_gettmbyobj h (VUserdata p) name of VTable t \<Rightarrow> luaH_get h t k | _ \<Rightarrow> VNil)"
  by (simp add: class_field_def luaT_gettmbyobj_def metatable_of_def split: option.splits)

subsection \<open>The bootstrap helper\<close>

lemma get_caching_table_existing:
  assumes "index2value idx (stack L) = Some (VUserdata p)" "uservalue (heap L) p \<noteq> VNil"
  shows "hsluaP_get_caching_table idx L
         = Inr ((), L\<lparr>stack := stack L @ [uservalue (heap L) p]\<rparr>)"
  using assms
  by (cases "uservalue (heap L) p")
     (simp_all add: hsluaP_get_caching_table_def lua_getuservalue_def ret_def bnd_def Let_def)

lemma get_caching_table_fresh:
  assumes "uservalue h p = VNil"
  shows "hsluaP_get_caching_table 1 \<lparr>stack = VUserdata p # rest, heap = h, trace = tr\<rparr>
     = Inr ((), \<lparr>stack = VUserdata p # rest @ [VTable (ntables h)],
                 heap = h\<lparr>tables := (tables h)(ntables h := (\<lambda>_. VNil)),
                          tmeta := (tmeta h)(ntables h := None),
                          ntables := Suc (ntables h),
                          uservalue := (uservalue h)(p := VTable (ntables h))\<rparr>,
                 trace = tr\<rparr>)"
  using assms by (simp add: hsluaP_get_caching_table_def api_defs Let_def butlast_append)

text \<open>Creation through any positive index that denotes the Proxy.\<close>

lemma get_caching_table_create:
  assumes "0 < idx" "index2value idx (stack L) = Some (VUserdata p)"
    "uservalue (heap L) p = VNil"
  shows "hsluaP_get_caching_table idx L
     = Inr ((), L\<lparr>stack := stack L @ [VTable (ntables (heap L))],
                  heap := (heap L)\<lparr>tables := (tables (heap L))(ntables (heap L) := (\<lambda>_. VNil)),
                            tmeta := (tmeta (heap L))(ntables (heap L) := None),
                            ntables := Suc (ntables (heap L)),
                            uservalue := (uservalue (heap L))(p := VTable (ntables (heap L)))\<rparr>\<rparr>)"
proof -
  have le: "nat idx \<le> length (stack L)" and el: "stack L ! (nat idx - 1) = VUserdata p"
    using assms(1,2) by (auto simp: index2value_def index2addr_def split: if_splits)
  have lt: "nat idx - 1 < length (stack L)" using le assms(1) by auto
  show ?thesis using assms le el lt
    by (simp add: hsluaP_get_caching_table_def api_defs Let_def butlast_append nth_append)
qed

lemma with_cache_existing: "uservalue h p \<noteq> VNil \<Longrightarrow> with_cache h p = h"
  by (simp add: with_cache_def get_caching_table_existing index2value_def index2addr_def)

lemma with_cache_fresh:
  "uservalue h p = VNil \<Longrightarrow> with_cache h p =
     h\<lparr>tables := (tables h)(ntables h := (\<lambda>_. VNil)),
       tmeta := (tmeta h)(ntables h := None),
       ntables := Suc (ntables h),
       uservalue := (uservalue h)(p := VTable (ntables h))\<rparr>"
  using get_caching_table_fresh[of h p "[]" "[]"] by (simp add: with_cache_def)

lemma with_cache_attached:
  "proxy_wf h p \<Longrightarrow> \<exists>c. uservalue (with_cache h p) p = VTable c"
  by (cases "uservalue h p")
     (simp_all add: proxy_wf_def with_cache_fresh with_cache_existing)

lemma with_cache_entry:
  "proxy_wf h p \<Longrightarrow> cache_entry (with_cache h p) p k = cache_entry h p k"
  by (cases "uservalue h p")
     (simp_all add: proxy_wf_def with_cache_fresh with_cache_existing cache_entry_def
        luaH_get_def)

lemma with_cache_class:
  assumes "proxy_wf h p" "name = ''getters'' \<or> name = ''methods''"
  shows "class_field (with_cache h p) p name k = class_field h p name k"
proof (cases "uservalue h p = VNil")
  case True
  then have a: "class_allocated h p" using assms(1) by (simp add: proxy_wf_def)
  show ?thesis using a assms(2) True
    by (auto simp add: with_cache_fresh class_field_def class_allocated_def allocated_def
        luaH_get_def split: option.splits val.splits)
next
  case False
  then show ?thesis by (simp add: with_cache_existing)
qed

subsection \<open>Reading a metafield of the Proxy\<close>

lemma getmetafield_userdata:
  "luaL_getmetafield 1 name \<lparr>stack = VUserdata p # rest, heap = h, trace = tr\<rparr> =
    (let v = luaT_gettmbyobj h (VUserdata p) name in
     if v = VNil then Inr (LUA_TNIL, \<lparr>stack = VUserdata p # rest, heap = h, trace = tr\<rparr>)
     else Inr (ttnov v, \<lparr>stack = VUserdata p # rest @ [v], heap = h, trace = tr\<rparr>))"
proof (cases "umeta h p")
  case None
  then show ?thesis by (simp add: api_defs luaT_gettmbyobj_def metatable_of_def)
next
  case (Some mt)
  then show ?thesis
    by (cases "luaH_get h mt (VStr name)")
       (simp_all add: api_defs luaT_gettmbyobj_def metatable_of_def Let_def butlast_append)
qed

subsection \<open>The tiers of \<open>hslua_cachedindex\<close> on a Proxy with its Cache attached\<close>

lemma tier_cache_hit:
  assumes "uservalue h p = VTable c" "luaH_get h c key = v" "v \<noteq> VNil"
  shows "run (hslua_cachedindex cf) [VUserdata p, key] h = Returned [v] h []"
proof -
  let ?L = "\<lparr>stack = [VUserdata p, key], heap = h, trace = []\<rparr>"
  have b: "hsluaP_get_caching_table 1 ?L
           = Inr ((), ?L\<lparr>stack := [VUserdata p, key, VTable c]\<rparr>)"
    using assms(1) by (simp add: get_caching_table_existing index2value_def index2addr_def)
  have t: "ttnov v \<noteq> LUA_TNIL" using assms(3) by (rule not_nil_type)
  show ?thesis using assms(2) t
    by (simp add: run_def hslua_cachedindex_def bnd_def lua_settop_def ret_def b
        lua_pushvalue_def index2value_def index2addr_def lua_rawget_def Let_def)
qed

lemma tier_getter:
  assumes "uservalue h p = VTable c" "luaH_get h c key = VNil"
    "class_field h p ''getters'' key = g" "g \<noteq> VNil"
  shows "run (hslua_cachedindex cf) [VUserdata p, key] h =
     (case luaD_call cf g [VUserdata p] h of
        Inl (e, h') \<Rightarrow> Raised e h' [Called g [VUserdata p]]
      | Inr (rs, h') \<Rightarrow>
          Returned [hd (adjust_results 1 rs)]
            (luaH_store h' c key (hd (adjust_results 1 rs))) [Called g [VUserdata p]])"
proof -
  let ?L = "\<lparr>stack = [VUserdata p, key], heap = h, trace = []\<rparr>"
  have b: "hsluaP_get_caching_table 1 ?L
           = Inr ((), ?L\<lparr>stack := [VUserdata p, key, VTable c]\<rparr>)"
    using assms(1) by (simp add: get_caching_table_existing index2value_def index2addr_def)
  from assms(3,4) obtain gt
    where gt: "luaT_gettmbyobj h (VUserdata p) ''getters'' = VTable gt"
      and g: "luaH_get h gt key = g"
    by (auto simp: class_field_tm split: val.splits)
  have k: "key \<noteq> VNil" using g assms(4) by (auto simp: luaH_get_def)
  have t: "ttnov g \<noteq> LUA_TNIL" using assms(4) by (rule not_nil_type)
  have mf: "luaL_getmetafield 1 ''getters''
              \<lparr>stack = [VUserdata p, key, VTable c], heap = h, trace = []\<rparr>
     = Inr (LUA_TTABLE,
            \<lparr>stack = [VUserdata p, key, VTable c, VTable gt], heap = h, trace = []\<rparr>)"
    by (simp add: getmetafield_userdata gt)
  show ?thesis
  proof (cases "luaD_call cf g [VUserdata p] h")
    case (Inl x)
    then obtain e h' where x: "luaD_call cf g [VUserdata p] h = Inl (e, h')"
      by (cases x) simp
    show ?thesis using assms(2) t k g x
      by (simp add: run_def hslua_cachedindex_def bnd_def lua_settop_def ret_def b
          lua_pushvalue_def index2value_def index2addr_def lua_rawget_def Let_def lua_pop_def
          mf lua_call_def raise_def)
  next
    case (Inr y)
    then obtain rs h' where y: "luaD_call cf g [VUserdata p] h = Inr (rs, h')"
      by (cases y) simp
    define r where "r = hd (adjust_results 1 rs)"
    have ar: "adjust_results (Suc 0) rs = [r]"
      unfolding r_def using adjust_results_one by simp
    show ?thesis using assms(2) t k g y ar
      by (simp add: run_def hslua_cachedindex_def bnd_def lua_settop_def ret_def b
          lua_pushvalue_def index2value_def index2addr_def lua_rawget_def Let_def lua_pop_def
          mf lua_call_def raise_def lua_rawset_def)
  qed
qed

lemma tier_methods:
  assumes "uservalue h p = VTable c" "luaH_get h c key = VNil"
    "class_field h p ''getters'' key = VNil"
  shows "run (hslua_cachedindex cf) [VUserdata p, key] h =
     Returned [class_field h p ''methods'' key] h []"
proof -
  let ?L = "\<lparr>stack = [VUserdata p, key], heap = h, trace = []\<rparr>"
  have b: "hsluaP_get_caching_table 1 ?L
           = Inr ((), ?L\<lparr>stack := [VUserdata p, key, VTable c]\<rparr>)"
    using assms(1) by (simp add: get_caching_table_existing index2value_def index2addr_def)
  show ?thesis using assms(2,3)
    by (cases "luaT_gettmbyobj h (VUserdata p) ''getters''";
        cases "luaT_gettmbyobj h (VUserdata p) ''methods''")
       (simp_all add: run_def hslua_cachedindex_def bnd_def lua_settop_def ret_def b
          lua_pushvalue_def index2value_def index2addr_def lua_rawget_def Let_def lua_pop_def
          getmetafield_userdata class_field_tm lua_pushnil_def)
qed

text \<open>
  A read on a Proxy without a Cache behaves as the read on the heap in which the
  Cache has been attached.
\<close>

lemma read_attaches_cache:
  assumes "proxy_wf h p"
  shows "run (hslua_cachedindex cf) [VUserdata p, key] h
       = run (hslua_cachedindex cf) [VUserdata p, key] (with_cache h p)"
proof (cases "uservalue h p = VNil")
  case True
  let ?h1 = "with_cache h p"
  have u: "uservalue ?h1 p = VTable (ntables h)" using True by (simp add: with_cache_fresh)
  have b1: "hsluaP_get_caching_table 1 \<lparr>stack = [VUserdata p, key], heap = h, trace = []\<rparr>
      = Inr ((), \<lparr>stack = [VUserdata p, key, VTable (ntables h)], heap = ?h1, trace = []\<rparr>)"
    using get_caching_table_fresh[OF True, of "[key]" "[]"] True
    by (simp add: with_cache_fresh)
  have b2: "hsluaP_get_caching_table 1 \<lparr>stack = [VUserdata p, key], heap = ?h1, trace = []\<rparr>
      = Inr ((), \<lparr>stack = [VUserdata p, key, VTable (ntables h)], heap = ?h1, trace = []\<rparr>)"
    using u by (simp add: get_caching_table_existing index2value_def index2addr_def)
  show ?thesis
    by (simp add: run_def hslua_cachedindex_def bnd_def lua_settop_def ret_def b1 b2)
next
  case False
  then show ?thesis by (simp add: with_cache_existing)
qed

subsection \<open>Writing through \<open>hslua_cachedsetindex\<close>\<close>

lemma setindex_outcome:
  assumes "uservalue (with_cache h p) p = VTable c"
    "uservalue h p = VNil \<or> uservalue h p = VTable c"
  shows "run hslua_cachedsetindex [VUserdata p, key, v] h =
     (if key = VNil then Raised (RunError ''table index is nil'') (with_cache h p) []
      else Returned [] (luaH_store (with_cache h p) c key v) [])"
proof -
  let ?L = "\<lparr>stack = [VUserdata p, key, v], heap = h, trace = []\<rparr>"
  have b: "hsluaP_get_caching_table 1 ?L
      = Inr ((), \<lparr>stack = [VUserdata p, key, v, VTable c], heap = with_cache h p,
                  trace = []\<rparr>)"
  proof (cases "uservalue h p = VNil")
    case True
    then show ?thesis using get_caching_table_fresh[OF True, of "[key, v]" "[]"] assms(1)
      by (simp add: with_cache_fresh)
  next
    case False
    then show ?thesis using assms
      by (simp add: get_caching_table_existing index2value_def index2addr_def
          with_cache_existing)
  qed
  show ?thesis using b
    by (cases "key = VNil")
       (simp_all add: run_def hslua_cachedsetindex_def bnd_def luaL_checkany_def lua_type_def
          index2addr_def index2value_def lua_settop_def ret_def raise_def lua_insert_def
          lua_rawset_def)
qed

lemma setindex_returns:
  assumes "out_values (run hslua_cachedsetindex [VUserdata p, key, v] h) = Some rs"
  shows "key \<noteq> VNil \<and> (\<exists>c. uservalue (with_cache h p) p = VTable c \<and>
      run hslua_cachedsetindex [VUserdata p, key, v] h
        = Returned [] (luaH_store (with_cache h p) c key v) [])"
proof (cases "uservalue h p")
  case VNil
  then have u: "uservalue (with_cache h p) p = VTable (ntables h)"
    by (simp add: with_cache_fresh)
  show ?thesis using assms setindex_outcome[OF u, of key v] VNil u
    by (auto split: if_splits)
next
  case (VTable c)
  then have u: "uservalue (with_cache h p) p = VTable c" by (simp add: with_cache_existing)
  show ?thesis using assms setindex_outcome[OF u, of key v] VTable u
    by (auto split: if_splits)
qed (use assms in \<open>simp_all add: run_def hslua_cachedsetindex_def bnd_def luaL_checkany_def
        lua_type_def index2addr_def index2value_def lua_settop_def ret_def raise_def
        lua_insert_def lua_rawset_def get_caching_table_existing\<close>)

subsection \<open>The paths of \<open>hslua_wrappedudindex\<close>\<close>

lemmas wrapped_defs =
  run_def hslua_wrappedudindex_def bnd_def ret_def raise_def luaL_checktype_def lua_type_def
  index2addr_def index2value_def lua_settop_def lua_pop_def lua_pushvalue_def
  lua_pushliteral_def lua_pushstring_def lua_rawget_def lua_rawset_def lua_error_def
  lua_pushnil_def lua_gettable_def Let_def

lemma wrapped_local_entry:
  assumes "luaH_get h t key = v" "v \<noteq> VNil"
  shows "run (hslua_wrappedudindex cf) [VTable t, key] h = Returned [v] h []"
  using assms not_nil_type[OF assms(2)] by (simp add: wrapped_defs)

lemma wrapped_delegate:
  assumes "luaH_get h t key = VNil"
    and "luaH_get h t (VStr ''_hslua_value'') = VUserdata u"
  shows "run (hslua_wrappedudindex cf) [VTable t, key] h =
     (case luaV_gettable cf (VUserdata u) key h of
        Inl (e, h') \<Rightarrow> Raised e h' [Indexed (VUserdata u) key]
      | Inr (v, h') \<Rightarrow>
          (if v = VNil then Returned [VNil] h' [Indexed (VUserdata u) key]
           else if key = VNil then
             Raised (RunError ''table index is nil'') h' [Indexed (VUserdata u) key]
           else Returned [v] (luaH_store h' t key v) [Indexed (VUserdata u) key]))"
proof (cases "luaV_gettable cf (VUserdata u) key h")
  case (Inl x)
  then obtain e h' where x: "luaV_gettable cf (VUserdata u) key h = Inl (e, h')"
    by (cases x) simp
  show ?thesis using assms x by (simp add: wrapped_defs)
next
  case (Inr y)
  then obtain v h' where y: "luaV_gettable cf (VUserdata u) key h = Inr (v, h')"
    by (cases y) simp
  show ?thesis
  proof (cases "v = VNil")
    case True
    then show ?thesis using assms y by (simp add: wrapped_defs)
  next
    case False
    then show ?thesis using assms y not_nil_type[OF False] by (simp add: wrapped_defs)
  qed
qed

text \<open>The first iteration of the \<^verbatim>\<open>__index\<close> loop.\<close>

lemma luaV_finishget_first:
  "luaV_finishget cf MAXTAGLOOP t key h =
     (case luaT_gettmbyobj h t ''__index'' of
        VNil \<Rightarrow>
          (case t of VTable _ \<Rightarrow> Inr (VNil, h) | _ \<Rightarrow> Inl (TypeError t ''index'', h))
      | VFun f \<Rightarrow> luaT_callTM cf f t key h
      | VTable a \<Rightarrow>
          (if luaH_get h a key \<noteq> VNil then Inr (luaH_get h a key, h)
           else luaV_finishget cf (MAXTAGLOOP - 1) (VTable a) key h)
      | tm \<Rightarrow> luaV_finishget cf (MAXTAGLOOP - 1) tm key h)"
proof -
  have m: "MAXTAGLOOP = Suc (MAXTAGLOOP - 1)" by (simp add: MAXTAGLOOP_def)
  show ?thesis by (subst m) (simp only: luaV_finishget.simps diff_Suc_1)
qed

subsection \<open>The concrete heap\<close>

lemma ex_proxy_wf: "proxy_wf ex_heap 0" "proxy_wf ex_heap 2"
  by (simp_all add: proxy_wf_def class_allocated_def allocated_def eval_defs)

lemma ex_getter_call:
  "luaD_call ex_cf (VFun 0) [VUserdata 0] h = Inr ([VNum 7], h)"
  "luaD_call ex_cf (VFun 1) [VUserdata 0] h = Inr ([], h)"
  by (simp_all add: luaD_call_def ex_cf_def)

section \<open>The claims\<close>

text \<open>
  C1 (as stated: after a successful \<open>cachedsetindex(Proxy, key, v)\<close>, for every value
  \<open>v\<close>, the next \<open>cachedindex(Proxy, key)\<close> returns \<open>v\<close>). This fails for \<open>v\<close> = nil:
  on Proxy 0 of the concrete heap the write of nil under \<open>x\<close> succeeds, and the read
  that follows returns 7, the result of the getter for \<open>x\<close>, not nil.
\<close>

theorem write_nil_then_read_calls_getter:
  "out_values (run hslua_cachedsetindex [VUserdata 0, VStr ''x'', VNil] ex_heap) = Some []
   \<and> out_values (run (hslua_cachedindex ex_cf) [VUserdata 0, VStr ''x'']
         (out_heap (run hslua_cachedsetindex [VUserdata 0, VStr ''x'', VNil] ex_heap)))
       = Some [VNum 7]"
  by (simp add: eval_defs)

text \<open>
  C1 (amended): for every Proxy \<open>p\<close>, key and value \<open>v\<close> other than nil, if
  \<open>cachedsetindex(p, key, v)\<close> returns, then \<open>cachedindex(p, key)\<close> in the heap it
  leaves returns \<open>v\<close>, whatever the class of \<open>p\<close> and the host functions \<open>cf\<close> are:
  the heap is unchanged and the trace is empty, so no getter is called.
\<close>

theorem cachedindex_after_write:
  assumes "out_values (run hslua_cachedsetindex [VUserdata p, key, v] h) = Some rs"
    and "v \<noteq> VNil"
  shows "run (hslua_cachedindex cf) [VUserdata p, key]
           (out_heap (run hslua_cachedsetindex [VUserdata p, key, v] h))
         = Returned [v] (out_heap (run hslua_cachedsetindex [VUserdata p, key, v] h)) []"
proof -
  from setindex_returns[OF assms(1)] obtain c where k: "key \<noteq> VNil"
    and u: "uservalue (with_cache h p) p = VTable c"
    and r: "run hslua_cachedsetindex [VUserdata p, key, v] h
            = Returned [] (luaH_store (with_cache h p) c key v) []"
    by blast
  let ?h1 = "luaH_store (with_cache h p) c key v"
  have "uservalue ?h1 p = VTable c" using u by (simp add: luaH_store_def)
  moreover have "luaH_get ?h1 c key = v" using k by (simp add: luaH_store_def luaH_get_def)
  ultimately show ?thesis using tier_cache_hit[of ?h1 p c key v cf] assms(2) r by simp
qed

text \<open>
  Witness for C1 (amended): Proxy 0 has a getter for \<open>x\<close> that returns 7; after
  writing 3 under \<open>x\<close> the read returns 3.
\<close>

theorem cachedindex_after_write_witness:
  "out_values (run hslua_cachedsetindex [VUserdata 0, VStr ''x'', VNum 3] ex_heap) = Some []
   \<and> VNum 3 \<noteq> VNil
   \<and> class_field ex_heap 0 ''getters'' (VStr ''x'') = VFun 0
   \<and> run (hslua_cachedindex ex_cf) [VUserdata 0, VStr ''x'']
        (out_heap (run hslua_cachedsetindex [VUserdata 0, VStr ''x'', VNum 3] ex_heap))
      = Returned [VNum 3]
          (out_heap (run hslua_cachedsetindex [VUserdata 0, VStr ''x'', VNum 3] ex_heap)) []"
proof -
  have a: "out_values (run hslua_cachedsetindex [VUserdata 0, VStr ''x'', VNum 3] ex_heap)
           = Some []"
    by (simp add: eval_defs)
  have b: "VNum 3 \<noteq> VNil" by simp
  have c: "class_field ex_heap 0 ''getters'' (VStr ''x'') = VFun 0"
    by (simp add: class_field_def eval_defs)
  show ?thesis using a b c cachedindex_after_write[OF a b, of ex_cf] by simp
qed

text \<open>
  C2 (as stated: \<open>cachedsetindex(Proxy, key, nil)\<close> fails and leaves the Cache
  unchanged). The check done is \<^verbatim>\<open>luaL_checkany\<close>, which accepts nil: on Proxy 2,
  whose Cache holds 1 for \<open>x\<close>, the write of nil returns and the entry is gone.
\<close>

theorem write_nil_returns_and_removes_entry:
  "out_values (run hslua_cachedsetindex [VUserdata 2, VStr ''x'', VNil] ex_heap) = Some []
   \<and> cache_entry ex_heap 2 (VStr ''x'') = VNum 1
   \<and> cache_entry (out_heap (run hslua_cachedsetindex [VUserdata 2, VStr ''x'', VNil] ex_heap))
        2 (VStr ''x'') = VNil"
  by (simp add: cache_entry_def eval_defs)

text \<open>
  C2 (amended): \<open>cachedsetindex\<close> fails when the value argument is missing, that is
  when it is called with fewer than three arguments; the failure is an argument error
  raised before anything is changed: the heap is the one the call started with.
\<close>

theorem cachedsetindex_missing_value:
  "length args < 3 \<Longrightarrow>
   run hslua_cachedsetindex args h = Raised (ArgError 3 ''value expected'') h []"
  by (simp add: run_def hslua_cachedsetindex_def api_defs)

text \<open>Witness for C2 (amended): a call with a Proxy and a key only.\<close>

theorem cachedsetindex_missing_value_witness:
  "length [VUserdata 2, VStr ''x''] < 3
   \<and> run hslua_cachedsetindex [VUserdata 2, VStr ''x''] ex_heap
       = Raised (ArgError 3 ''value expected'') ex_heap []"
  using cachedsetindex_missing_value[of "[VUserdata 2, VStr ''x'']" ex_heap] by simp

text \<open>
  C3 (as stated: with a getter \<open>g\<close> for the key and no Cache entry, the first read
  calls \<open>g\<close> once and stores its result, and a second read returns the same value
  without calling \<open>g\<close>). This fails when \<open>g\<close> returns nil: on Proxy 0 the getter for
  \<open>y\<close> returns no value, the first read calls it and returns nil, and the second read
  calls it again.
\<close>

theorem nil_getter_called_on_second_read:
  "class_field ex_heap 0 ''getters'' (VStr ''y'') = VFun 1
   \<and> out_values (run (hslua_cachedindex ex_cf) [VUserdata 0, VStr ''y''] ex_heap) = Some [VNil]
   \<and> out_trace (run (hslua_cachedindex ex_cf) [VUserdata 0, VStr ''y''] ex_heap)
       = [Called (VFun 1) [VUserdata 0]]
   \<and> out_trace (run (hslua_cachedindex ex_cf) [VUserdata 0, VStr ''y'']
         (out_heap (run (hslua_cachedindex ex_cf) [VUserdata 0, VStr ''y''] ex_heap)))
       = [Called (VFun 1) [VUserdata 0]]"
  by (simp add: class_field_def eval_defs)

text \<open>
  C3 (amended): let \<open>p\<close> be a well-formed Proxy whose Cache has no entry for \<open>key\<close>
  and whose class has a getter \<open>g\<close> for \<open>key\<close>. If the call of \<open>g\<close> on the Proxy
  returns, its first result \<open>v\<close> is not nil, and the call leaves the user value of \<open>p\<close>
  (the attachment of the Cache) as it was, then the first read calls \<open>g\<close> exactly once,
  with the Proxy as sole argument, returns \<open>v\<close> and stores \<open>v\<close> in the Cache under
  \<open>key\<close>; a second read in the heap \<open>h3\<close> left by the first returns \<open>v\<close> with an
  empty trace, whatever the host functions do by then.
\<close>

theorem cachedindex_getter_cached:
  fixes h p key cf
  defines "h3 \<equiv> out_heap (run (hslua_cachedindex cf) [VUserdata p, key] h)"
  assumes "proxy_wf h p" and "cache_entry h p key = VNil"
    and "class_field h p ''getters'' key = g" and "g \<noteq> VNil"
    and "luaD_call cf g [VUserdata p] (with_cache h p) = Inr (rs, h2)"
    and "hd (adjust_results 1 rs) = v" and "v \<noteq> VNil"
    and "uservalue h2 p = uservalue (with_cache h p) p"
  shows "out_values (run (hslua_cachedindex cf) [VUserdata p, key] h) = Some [v]
       \<and> out_trace (run (hslua_cachedindex cf) [VUserdata p, key] h) = [Called g [VUserdata p]]
       \<and> cache_entry h3 p key = v
       \<and> (\<forall>cf'. run (hslua_cachedindex cf') [VUserdata p, key] h3 = Returned [v] h3 [])"
proof -
  let ?h1 = "with_cache h p"
  from with_cache_attached[OF assms(2)] obtain c where u: "uservalue ?h1 p = VTable c"
    by blast
  have miss: "luaH_get ?h1 c key = VNil"
    using with_cache_entry[OF assms(2), of key] assms(3) u by (simp add: cache_entry_def)
  have g: "class_field ?h1 p ''getters'' key = g"
    using with_cache_class[OF assms(2), of "''getters''" key] assms(4) by simp
  have k: "key \<noteq> VNil"
    using g assms(5)
    by (auto simp: class_field_def luaH_get_def split: option.splits val.splits)
  have r: "run (hslua_cachedindex cf) [VUserdata p, key] h
           = Returned [v] (luaH_store h2 c key v) [Called g [VUserdata p]]"
    using tier_getter[OF u miss g assms(5), of cf] assms(6,7)
      read_attaches_cache[OF assms(2), of cf key] by simp
  have h3: "h3 = luaH_store h2 c key v" unfolding h3_def using r by simp
  have u3: "uservalue h3 p = VTable c" using assms(9) u h3 by (simp add: luaH_store_def)
  have e3: "luaH_get h3 c key = v" using k h3 by (simp add: luaH_store_def luaH_get_def)
  have "cache_entry h3 p key = v" using u3 e3 by (simp add: cache_entry_def)
  moreover have "\<forall>cf'. run (hslua_cachedindex cf') [VUserdata p, key] h3 = Returned [v] h3 []"
    using tier_cache_hit[OF u3 e3 assms(8)] by simp
  ultimately show ?thesis using r by simp
qed

text \<open>
  Witness for C3 (amended): Proxy 0 and its getter for \<open>x\<close>, which returns 7 and
  leaves the heap alone.
\<close>

theorem cachedindex_getter_cached_witness:
  "proxy_wf ex_heap 0
   \<and> cache_entry ex_heap 0 (VStr ''x'') = VNil
   \<and> class_field ex_heap 0 ''getters'' (VStr ''x'') = VFun 0
   \<and> luaD_call ex_cf (VFun 0) [VUserdata 0] (with_cache ex_heap 0)
       = Inr ([VNum 7], with_cache ex_heap 0)
   \<and> hd (adjust_results 1 [VNum 7]) = VNum 7
   \<and> out_values (run (hslua_cachedindex ex_cf) [VUserdata 0, VStr ''x''] ex_heap)
       = Some [VNum 7]
   \<and> out_trace (run (hslua_cachedindex ex_cf) [VUserdata 0, VStr ''x''] ex_heap)
       = [Called (VFun 0) [VUserdata 0]]
   \<and> cache_entry (out_heap (run (hslua_cachedindex ex_cf) [VUserdata 0, VStr ''x''] ex_heap))
        0 (VStr ''x'') = VNum 7
   \<and> out_values (run (hslua_cachedindex ex_cf) [VUserdata 0, VStr ''x'']
        (out_heap (run (hslua_cachedindex ex_cf) [VUserdata 0, VStr ''x''] ex_heap)))
       = Some [VNum 7]
   \<and> out_trace (run (hslua_cachedindex ex_cf) [VUserdata 0, VStr ''x'']
        (out_heap (run (hslua_cachedindex ex_cf) [VUserdata 0, VStr ''x''] ex_heap)))
       = []"
proof -
  have a: "proxy_wf ex_heap 0" by (rule ex_proxy_wf)
  have b: "cache_entry ex_heap 0 (VStr ''x'') = VNil" by (simp add: cache_entry_def eval_defs)
  have c: "class_field ex_heap 0 ''getters'' (VStr ''x'') = VFun 0"
    by (simp add: class_field_def eval_defs)
  have d: "VFun 0 \<noteq> VNil" by simp
  have e: "luaD_call ex_cf (VFun 0) [VUserdata 0] (with_cache ex_heap 0)
           = Inr ([VNum 7], with_cache ex_heap 0)"
    by (rule ex_getter_call)
  have f: "hd (adjust_results 1 [VNum 7]) = VNum 7" by (simp add: adjust_results_def)
  have g: "VNum 7 \<noteq> VNil" by simp
  have i: "uservalue (with_cache ex_heap 0) 0 = uservalue (with_cache ex_heap 0) 0" by simp
  note t = cachedindex_getter_cached[OF a b c d e f g i]
  from t have t1: "out_values (run (hslua_cachedindex ex_cf) [VUserdata 0, VStr ''x''] ex_heap)
       = Some [VNum 7]" by (rule conjunct1)
  from t have t2: "out_trace (run (hslua_cachedindex ex_cf) [VUserdata 0, VStr ''x''] ex_heap)
       = [Called (VFun 0) [VUserdata 0]]" by blast
  from t have t3: "cache_entry
        (out_heap (run (hslua_cachedindex ex_cf) [VUserdata 0, VStr ''x''] ex_heap))
        0 (VStr ''x'') = VNum 7" by blast
  from t have t4: "run (hslua_cachedindex ex_cf) [VUserdata 0, VStr ''x'']
        (out_heap (run (hslua_cachedindex ex_cf) [VUserdata 0, VStr ''x''] ex_heap))
      = Returned [VNum 7]
          (out_heap (run (hslua_cachedindex ex_cf) [VUserdata 0, VStr ''x''] ex_heap)) []"
    by blast
  have t5: "out_values (run (hslua_cachedindex ex_cf) [VUserdata 0, VStr ''x'']
        (out_heap (run (hslua_cachedindex ex_cf) [VUserdata 0, VStr ''x''] ex_heap)))
       = Some [VNum 7]"
    by (subst t4) simp
  have t6: "out_trace (run (hslua_cachedindex ex_cf) [VUserdata 0, VStr ''x'']
        (out_heap (run (hslua_cachedindex ex_cf) [VUserdata 0, VStr ''x''] ex_heap)))
       = []"
    by (subst t4) simp
  show ?thesis using a b c e f t1 t2 t3 t5 t6 by blast
qed

text \<open>
  C4 (as stated: when the reserved key holds no full userdata, \<open>wrappedudindex\<close>
  fails with the corrupted-object error for every key). The table's own entries are
  looked up first: in table 6, which has no \<^verbatim>\<open>_hslua_value\<close>, the key \<open>a\<close> is
  present and the read returns its value 1.
\<close>

theorem corrupted_wrapper_returns_local_entry:
  "ttnov (luaH_get ex_heap 6 (VStr ''_hslua_value'')) \<noteq> LUA_TUSERDATA
   \<and> out_values (run (hslua_wrappedudindex ex_cf) [VTable 6, VStr ''a''] ex_heap)
       = Some [VNum 1]"
  by (simp add: eval_defs)

text \<open>
  C4 (amended): for every wrapping table \<open>t\<close> whose reserved key \<^verbatim>\<open>_hslua_value\<close> does
  not hold a full userdata, and for every key that has no entry in \<open>t\<close> itself,
  \<open>wrappedudindex(t, key)\<close> raises the error whose value is the string
  \<^verbatim>\<open>Corrupted object, wrapped userdata not found.\<close>; it returns nothing, and the heap
  is unchanged.
\<close>

theorem wrappedudindex_corrupted:
  assumes "luaH_get h t key = VNil"
    and "ttnov (luaH_get h t (VStr ''_hslua_value'')) \<noteq> LUA_TUSERDATA"
  shows "run (hslua_wrappedudindex cf) [VTable t, key] h
         = Raised (ErrorValue (VStr ''Corrupted object, wrapped userdata not found.'')) h []"
  using assms by (simp add: wrapped_defs)

text \<open>Witness for C4 (amended): table 6 and the key \<open>b\<close>, which it does not hold.\<close>

theorem wrappedudindex_corrupted_witness:
  "luaH_get ex_heap 6 (VStr ''b'') = VNil
   \<and> ttnov (luaH_get ex_heap 6 (VStr ''_hslua_value'')) \<noteq> LUA_TUSERDATA
   \<and> run (hslua_wrappedudindex ex_cf) [VTable 6, VStr ''b''] ex_heap
       = Raised (ErrorValue (VStr ''Corrupted object, wrapped userdata not found.'')) ex_heap []"
proof -
  have a: "luaH_get ex_heap 6 (VStr ''b'') = VNil" by (simp add: eval_defs)
  have b: "ttnov (luaH_get ex_heap 6 (VStr ''_hslua_value'')) \<noteq> LUA_TUSERDATA"
    by (simp add: eval_defs)
  show ?thesis using a b wrappedudindex_corrupted[OF a b, of ex_cf] by blast
qed

text \<open>
  C5: let \<open>p\<close> be a well-formed Proxy whose Cache has no entry for \<open>key\<close>, whose class
  has no getter for \<open>key\<close> and has the method \<open>m\<close> for \<open>key\<close>. Then
  \<open>cachedindex(p, key)\<close> returns \<open>m\<close> without calling anything, and in the heap it
  leaves (the initial heap with the Cache attached) the Cache still has no entry for
  \<open>key\<close>.
\<close>

theorem cachedindex_method_not_cached:
  assumes "proxy_wf h p" and "cache_entry h p key = VNil"
    and "class_field h p ''getters'' key = VNil"
    and "class_field h p ''methods'' key = m" and "m \<noteq> VNil"
  shows "run (hslua_cachedindex cf) [VUserdata p, key] h = Returned [m] (with_cache h p) []
       \<and> cache_entry (with_cache h p) p key = VNil"
proof -
  let ?h1 = "with_cache h p"
  from with_cache_attached[OF assms(1)] obtain c where u: "uservalue ?h1 p = VTable c"
    by blast
  have e: "cache_entry ?h1 p key = VNil"
    using with_cache_entry[OF assms(1), of key] assms(2) by simp
  then have miss: "luaH_get ?h1 c key = VNil" using u by (simp add: cache_entry_def)
  have g: "class_field ?h1 p ''getters'' key = VNil"
    using with_cache_class[OF assms(1), of "''getters''" key] assms(3) by simp
  have me: "class_field ?h1 p ''methods'' key = m"
    using with_cache_class[OF assms(1), of "''methods''" key] assms(4) by simp
  show ?thesis
    using tier_methods[OF u miss g, of cf] me e
      read_attaches_cache[OF assms(1), of cf key]
    by simp
qed

text \<open>Witness for C5: Proxy 0 and the method \<open>m\<close> of its class.\<close>

theorem cachedindex_method_not_cached_witness:
  "proxy_wf ex_heap 0
   \<and> cache_entry ex_heap 0 (VStr ''m'') = VNil
   \<and> class_field ex_heap 0 ''getters'' (VStr ''m'') = VNil
   \<and> class_field ex_heap 0 ''methods'' (VStr ''m'') = VFun 2
   \<and> VFun 2 \<noteq> VNil
   \<and> run (hslua_cachedindex ex_cf) [VUserdata 0, VStr ''m''] ex_heap
       = Returned [VFun 2] (with_cache ex_heap 0) []
   \<and> cache_entry (with_cache ex_heap 0) 0 (VStr ''m'') = VNil"
proof -
  have a: "proxy_wf ex_heap 0" by (rule ex_proxy_wf)
  have b: "cache_entry ex_heap 0 (VStr ''m'') = VNil" by (simp add: cache_entry_def eval_defs)
  have c: "class_field ex_heap 0 ''getters'' (VStr ''m'') = VNil"
    by (simp add: class_field_def eval_defs)
  have d: "class_field ex_heap 0 ''methods'' (VStr ''m'') = VFun 2"
    by (simp add: class_field_def eval_defs)
  have e: "VFun 2 \<noteq> VNil" by simp
  show ?thesis using a b c d e cachedindex_method_not_cached[OF a b c d e, of ex_cf] by blast
qed

text \<open>
  C6: let the index \<open>idx\<close> denote the Proxy \<open>p\<close>, and let \<open>p\<close> either have the Cache
  \<open>c0\<close> attached or have no user value yet (then \<open>idx\<close> is positive, as in both
  callers). A first call of the helper succeeds, pushes a table \<open>c\<close> and leaves it
  attached to \<open>p\<close>; when \<open>c0\<close> was attached, \<open>c\<close> is \<open>c0\<close> and the heap is
  unchanged, so an existing Cache is neither replaced nor cleared. After an entry
  \<open>k\<close>, \<open>v\<close> has been stored in \<open>c\<close> in the heap left by the first call, a second
  call on the same arguments pushes the same table \<open>c\<close> and leaves that heap as it
  is, so \<open>c\<close> still holds \<open>v\<close> under \<open>k\<close>.
\<close>

theorem get_caching_table_idempotent:
  assumes "index2value idx (stack L) = Some (VUserdata p)"
    and "uservalue (heap L) p = VTable c0 \<or> (uservalue (heap L) p = VNil \<and> 0 < idx)"
  shows "\<exists>c L1. hsluaP_get_caching_table idx L = Inr ((), L1)
          \<and> stack L1 = stack L @ [VTable c] \<and> trace L1 = trace L
          \<and> uservalue (heap L1) p = VTable c
          \<and> (uservalue (heap L) p = VTable c0 \<longrightarrow> c = c0 \<and> heap L1 = heap L)
          \<and> (\<forall>k v. k \<noteq> VNil \<longrightarrow>
               hsluaP_get_caching_table idx (L\<lparr>heap := luaH_store (heap L1) c k v\<rparr>)
                 = Inr ((), L\<lparr>stack := stack L @ [VTable c],
                               heap := luaH_store (heap L1) c k v\<rparr>)
               \<and> luaH_get (luaH_store (heap L1) c k v) c k = v)"
proof -
  have second: "hsluaP_get_caching_table idx (L\<lparr>heap := luaH_store h1 c k v\<rparr>)
                 = Inr ((), L\<lparr>stack := stack L @ [VTable c], heap := luaH_store h1 c k v\<rparr>)"
    if "uservalue h1 p = VTable c" for h1 c k v
    using get_caching_table_existing[of idx "L\<lparr>heap := luaH_store h1 c k v\<rparr>" p] assms(1) that
    by (simp add: luaH_store_def)
  have stored: "k \<noteq> VNil \<Longrightarrow> luaH_get (luaH_store h1 c k v) c k = v" for h1 c k v
    by (simp add: luaH_get_def luaH_store_def)
  from assms(2) show ?thesis
  proof
    assume a: "uservalue (heap L) p = VTable c0"
    have f: "hsluaP_get_caching_table idx L = Inr ((), L\<lparr>stack := stack L @ [VTable c0]\<rparr>)"
      using get_caching_table_existing[OF assms(1)] a by simp
    show ?thesis
      apply (rule exI[of _ c0], rule exI[of _ "L\<lparr>stack := stack L @ [VTable c0]\<rparr>"])
      using f a second[of "heap L" c0] stored by simp
  next
    assume a: "uservalue (heap L) p = VNil \<and> 0 < idx"
    let ?c = "ntables (heap L)"
    let ?h1 = "(heap L)\<lparr>tables := (tables (heap L))(?c := (\<lambda>_. VNil)),
                          tmeta := (tmeta (heap L))(?c := None),
                          ntables := Suc ?c,
                          uservalue := (uservalue (heap L))(p := VTable ?c)\<rparr>"
    have f: "hsluaP_get_caching_table idx L
             = Inr ((), L\<lparr>stack := stack L @ [VTable ?c], heap := ?h1\<rparr>)"
      using get_caching_table_create[OF _ assms(1)] a by simp
    have u: "uservalue ?h1 p = VTable ?c" by simp
    show ?thesis
      apply (rule exI[of _ ?c], rule exI[of _ "L\<lparr>stack := stack L @ [VTable ?c], heap := ?h1\<rparr>"])
      using f a second[OF u] stored by simp
  qed
qed

text \<open>
  Witness for C6: Proxy 0, which has no Cache yet, at index 1. The first call creates
  and attaches a table; the entry \<open>z\<close>, 4 is stored in it; the second call pushes the
  same table, which holds the entry.
\<close>

theorem get_caching_table_idempotent_witness:
  "index2value 1 [VUserdata 0] = Some (VUserdata 0)
   \<and> uservalue ex_heap 0 = VNil
   \<and> (0::int) < 1
   \<and> (\<exists>c L1. hsluaP_get_caching_table 1 \<lparr>stack = [VUserdata 0], heap = ex_heap, trace = []\<rparr>
                 = Inr ((), L1)
          \<and> stack L1 = [VUserdata 0, VTable c]
          \<and> uservalue (heap L1) 0 = VTable c
          \<and> hsluaP_get_caching_table 1
               \<lparr>stack = [VUserdata 0], heap = luaH_store (heap L1) c (VStr ''z'') (VNum 4),
                 trace = []\<rparr>
              = Inr ((), \<lparr>stack = [VUserdata 0, VTable c],
                          heap = luaH_store (heap L1) c (VStr ''z'') (VNum 4), trace = []\<rparr>)
          \<and> luaH_get (luaH_store (heap L1) c (VStr ''z'') (VNum 4)) c (VStr ''z'') = VNum 4)"
proof -
  let ?L = "\<lparr>stack = [VUserdata 0], heap = ex_heap, trace = []\<rparr>"
  have a: "index2value 1 (stack ?L) = Some (VUserdata 0)"
    by (simp add: index2value_def index2addr_def)
  have b: "uservalue (heap ?L) 0 = VTable 0 \<or> (uservalue (heap ?L) 0 = VNil \<and> (0::int) < 1)"
    by (simp add: ex_heap_def)
  have k: "VStr ''z'' \<noteq> VNil" by simp
  from get_caching_table_idempotent[OF a b] obtain c L1 where
    f: "hsluaP_get_caching_table 1 ?L = Inr ((), L1)"
    and s: "stack L1 = stack ?L @ [VTable c]" and u: "uservalue (heap L1) 0 = VTable c"
    and n: "\<forall>k v. k \<noteq> VNil \<longrightarrow>
               hsluaP_get_caching_table 1 (?L\<lparr>heap := luaH_store (heap L1) c k v\<rparr>)
                 = Inr ((), ?L\<lparr>stack := stack ?L @ [VTable c],
                               heap := luaH_store (heap L1) c k v\<rparr>)
               \<and> luaH_get (luaH_store (heap L1) c k v) c k = v"
    by blast
  from n k have n':
    "hsluaP_get_caching_table 1 (?L\<lparr>heap := luaH_store (heap L1) c (VStr ''z'') (VNum 4)\<rparr>)
       = Inr ((), ?L\<lparr>stack := stack ?L @ [VTable c],
                     heap := luaH_store (heap L1) c (VStr ''z'') (VNum 4)\<rparr>)
     \<and> luaH_get (luaH_store (heap L1) c (VStr ''z'') (VNum 4)) c (VStr ''z'') = VNum 4"
    by blast
  have h0: "uservalue ex_heap 0 = VNil" by (simp add: ex_heap_def)
  show ?thesis using a h0 f s u n' by auto
qed

text \<open>
  C7: let \<open>t\<close> be a wrapping table with no entry of its own for \<open>x\<close>, whose reserved
  key holds the userdata \<open>u\<close>, and let indexing \<open>u\<close> with \<open>x\<close> yield 5. Then
  \<open>wrappedudindex(t, x)\<close> indexes \<open>u\<close> once, returns 5 and stores 5 under \<open>x\<close> in
  \<open>t\<close>. In every later heap \<open>h2\<close> in which \<open>t\<close> still holds 5 under \<open>x\<close>, whatever
  has become of the handle and of the host functions, \<open>wrappedudindex(t, x)\<close> returns
  5 with an empty trace: the handle is not indexed again.
\<close>

theorem wrappedudindex_self_cache:
  assumes "luaH_get h t (VStr ''x'') = VNil"
    and "luaH_get h t (VStr ''_hslua_value'') = VUserdata u"
    and "luaV_gettable cf (VUserdata u) (VStr ''x'') h = Inr (VNum 5, h1)"
  shows "run (hslua_wrappedudindex cf) [VTable t, VStr ''x''] h
           = Returned [VNum 5] (luaH_store h1 t (VStr ''x'') (VNum 5))
               [Indexed (VUserdata u) (VStr ''x'')]
       \<and> luaH_get (luaH_store h1 t (VStr ''x'') (VNum 5)) t (VStr ''x'') = VNum 5
       \<and> (\<forall>cf' h2. luaH_get h2 t (VStr ''x'') = VNum 5 \<longrightarrow>
             run (hslua_wrappedudindex cf') [VTable t, VStr ''x''] h2 = Returned [VNum 5] h2 [])"
proof -
  have a: "run (hslua_wrappedudindex cf) [VTable t, VStr ''x''] h
           = Returned [VNum 5] (luaH_store h1 t (VStr ''x'') (VNum 5))
               [Indexed (VUserdata u) (VStr ''x'')]"
    using wrapped_delegate[OF assms(1,2), of cf] assms(3) by simp
  have b: "luaH_get (luaH_store h1 t (VStr ''x'') (VNum 5)) t (VStr ''x'') = VNum 5"
    by (simp add: luaH_get_def luaH_store_def)
  have c: "\<forall>cf' h2. luaH_get h2 t (VStr ''x'') = VNum 5 \<longrightarrow>
             run (hslua_wrappedudindex cf') [VTable t, VStr ''x''] h2 = Returned [VNum 5] h2 []"
    using wrapped_local_entry[of _ t "VStr ''x''" "VNum 5"] by simp
  show ?thesis using a b c by blast
qed

text \<open>
  Witness for C7: table 3 wraps userdata 1, whose \<^verbatim>\<open>__index\<close> table holds \<open>x\<close> = 5.
  For the second read the field of the handle has been changed to 6 and every host
  function returns 9.
\<close>

theorem wrappedudindex_self_cache_witness:
  "luaH_get ex_heap 3 (VStr ''x'') = VNil
   \<and> luaH_get ex_heap 3 (VStr ''_hslua_value'') = VUserdata 1
   \<and> luaV_gettable ex_cf (VUserdata 1) (VStr ''x'') ex_heap = Inr (VNum 5, ex_heap)
   \<and> run (hslua_wrappedudindex ex_cf) [VTable 3, VStr ''x''] ex_heap
       = Returned [VNum 5] (luaH_store ex_heap 3 (VStr ''x'') (VNum 5))
           [Indexed (VUserdata 1) (VStr ''x'')]
   \<and> luaV_gettable (\<lambda>f args h. Inr ([VNum 9], h)) (VUserdata 1) (VStr ''x'')
        (luaH_store (luaH_store ex_heap 3 (VStr ''x'') (VNum 5)) 5 (VStr ''x'') (VNum 6))
       = Inr (VNum 6,
           luaH_store (luaH_store ex_heap 3 (VStr ''x'') (VNum 5)) 5 (VStr ''x'') (VNum 6))
   \<and> run (hslua_wrappedudindex (\<lambda>f args h. Inr ([VNum 9], h))) [VTable 3, VStr ''x'']
        (luaH_store (luaH_store ex_heap 3 (VStr ''x'') (VNum 5)) 5 (VStr ''x'') (VNum 6))
       = Returned [VNum 5]
           (luaH_store (luaH_store ex_heap 3 (VStr ''x'') (VNum 5)) 5 (VStr ''x'') (VNum 6)) []"
proof -
  let ?h2 = "luaH_store (luaH_store ex_heap 3 (VStr ''x'') (VNum 5)) 5 (VStr ''x'') (VNum 6)"
  have a: "luaH_get ex_heap 3 (VStr ''x'') = VNil" by (simp add: eval_defs)
  have b: "luaH_get ex_heap 3 (VStr ''_hslua_value'') = VUserdata 1" by (simp add: eval_defs)
  have c: "luaV_gettable ex_cf (VUserdata 1) (VStr ''x'') ex_heap = Inr (VNum 5, ex_heap)"
    by (simp add: luaV_gettable_def luaV_finishget_first luaT_gettmbyobj_def metatable_of_def
        luaH_get_def ex_heap_def ex_tables_def)
  have d: "luaH_get ?h2 3 (VStr ''x'') = VNum 5"
    by (simp add: luaH_get_def luaH_store_def)
  have e: "luaV_gettable (\<lambda>f args h. Inr ([VNum 9], h)) (VUserdata 1) (VStr ''x'') ?h2
           = Inr (VNum 6, ?h2)"
    by (simp add: luaV_gettable_def luaV_finishget_first luaT_gettmbyobj_def metatable_of_def
        luaH_get_def luaH_store_def ex_heap_def ex_tables_def)
  note t = wrappedudindex_self_cache[OF a b c]
  from t have t1: "run (hslua_wrappedudindex ex_cf) [VTable 3, VStr ''x''] ex_heap
       = Returned [VNum 5] (luaH_store ex_heap 3 (VStr ''x'') (VNum 5))
           [Indexed (VUserdata 1) (VStr ''x'')]" by (rule conjunct1)
  from t d have t2: "run (hslua_wrappedudindex (\<lambda>f args h. Inr ([VNum 9], h)))
        [VTable 3, VStr ''x''] ?h2 = Returned [VNum 5] ?h2 []" by blast
  show ?thesis using a b c e t1 t2 by blast
qed

text \<open>
  C8: for a well-formed Proxy \<open>p\<close> and a key that is absent from its Cache, from the
  getters and from the methods of its class, \<open>cachedindex(p, key)\<close> returns nil: a
  normal return of one value, with nothing called; the heap it leaves is the initial
  one with the Cache attached.
\<close>

theorem cachedindex_not_found:
  assumes "proxy_wf h p" and "cache_entry h p key = VNil"
    and "class_field h p ''getters'' key = VNil"
    and "class_field h p ''methods'' key = VNil"
  shows "run (hslua_cachedindex cf) [VUserdata p, key] h = Returned [VNil] (with_cache h p) []"
proof -
  let ?h1 = "with_cache h p"
  from with_cache_attached[OF assms(1)] obtain c where u: "uservalue ?h1 p = VTable c"
    by blast
  have m: "luaH_get ?h1 c key = VNil"
    using with_cache_entry[OF assms(1), of key] assms(2) u by (simp add: cache_entry_def)
  have g: "class_field ?h1 p ''getters'' key = VNil"
    using with_cache_class[OF assms(1), of "''getters''" key] assms(3) by simp
  have me: "class_field ?h1 p ''methods'' key = VNil"
    using with_cache_class[OF assms(1), of "''methods''" key] assms(4) by simp
  show ?thesis
    using tier_methods[OF u m g, of cf] me
      read_attaches_cache[OF assms(1), of cf key]
    by simp
qed

text \<open>Witness for C8: Proxy 0 and the key \<open>q\<close>, known nowhere.\<close>

theorem cachedindex_not_found_witness:
  "proxy_wf ex_heap 0
   \<and> cache_entry ex_heap 0 (VStr ''q'') = VNil
   \<and> class_field ex_heap 0 ''getters'' (VStr ''q'') = VNil
   \<and> class_field ex_heap 0 ''methods'' (VStr ''q'') = VNil
   \<and> run (hslua_cachedindex ex_cf) [VUserdata 0, VStr ''q''] ex_heap
       = Returned [VNil] (with_cache ex_heap 0) []"
proof -
  have a: "proxy_wf ex_heap 0" by (rule ex_proxy_wf)
  have b: "cache_entry ex_heap 0 (VStr ''q'') = VNil" by (simp add: cache_entry_def eval_defs)
  have c: "class_field ex_heap 0 ''getters'' (VStr ''q'') = VNil"
    by (simp add: class_field_def eval_defs)
  have d: "class_field ex_heap 0 ''methods'' (VStr ''q'') = VNil"
    by (simp add: class_field_def eval_defs)
  show ?thesis using a b c d cachedindex_not_found[OF a b c d, of ex_cf] by blast
qed

text \<open>
  C9: for a well-formed Proxy \<open>p\<close> and every key, let \<open>h1\<close> be the heap left by
  \<open>cachedsetindex(p, key, nil)\<close>. For a key other than nil the write returns (for the
  nil key \<^verbatim>\<open>lua_rawset\<close> raises). In \<open>h1\<close> the Cache has no entry for \<open>key\<close>, and a
  read of \<open>key\<close> goes past the Cache: if the class has a getter \<open>g\<close> for \<open>key\<close> the
  read calls \<open>g\<close> on the Proxy, and otherwise it returns what the methods of the
  class hold for \<open>key\<close>.
\<close>

theorem cachedsetindex_nil_removes:
  fixes h p key
  defines "h1 \<equiv> out_heap (run hslua_cachedsetindex [VUserdata p, key, VNil] h)"
  assumes "proxy_wf h p"
  shows "(key \<noteq> VNil \<longrightarrow>
            run hslua_cachedsetindex [VUserdata p, key, VNil] h = Returned [] h1 [])
       \<and> cache_entry h1 p key = VNil
       \<and> (\<forall>cf g. class_field h1 p ''getters'' key = g \<longrightarrow> g \<noteq> VNil \<longrightarrow>
            out_trace (run (hslua_cachedindex cf) [VUserdata p, key] h1)
              = [Called g [VUserdata p]])
       \<and> (\<forall>cf. class_field h1 p ''getters'' key = VNil \<longrightarrow>
            run (hslua_cachedindex cf) [VUserdata p, key] h1
              = Returned [class_field h1 p ''methods'' key] h1 [])"
proof -
  let ?h0 = "with_cache h p"
  from with_cache_attached[OF assms(2)] obtain c where u: "uservalue ?h0 p = VTable c"
    by blast
  have u0: "uservalue h p = VNil \<or> uservalue h p = VTable c"
    using u by (cases "uservalue h p = VNil") (simp_all add: with_cache_existing)
  note r = setindex_outcome[OF u u0, of key VNil]
  have h1: "h1 = (if key = VNil then ?h0 else luaH_store ?h0 c key VNil)"
    unfolding h1_def using r by simp
  have u1: "uservalue h1 p = VTable c" using u h1 by (simp add: luaH_store_def)
  have e1: "luaH_get h1 c key = VNil" using h1 by (simp add: luaH_store_def luaH_get_def)
  have a: "key \<noteq> VNil \<longrightarrow>
           run hslua_cachedsetindex [VUserdata p, key, VNil] h = Returned [] h1 []"
    using r h1 by simp
  have b: "cache_entry h1 p key = VNil" using u1 e1 by (simp add: cache_entry_def)
  have c: "\<forall>cf g. class_field h1 p ''getters'' key = g \<longrightarrow> g \<noteq> VNil \<longrightarrow>
           out_trace (run (hslua_cachedindex cf) [VUserdata p, key] h1)
             = [Called g [VUserdata p]]"
  proof (intro allI impI)
    fix cf g
    assume g: "class_field h1 p ''getters'' key = g" "g \<noteq> VNil"
    show "out_trace (run (hslua_cachedindex cf) [VUserdata p, key] h1)
          = [Called g [VUserdata p]]"
      using tier_getter[OF u1 e1 g, of cf] by (simp split: sum.splits prod.splits)
  qed
  have d: "\<forall>cf. class_field h1 p ''getters'' key = VNil \<longrightarrow>
           run (hslua_cachedindex cf) [VUserdata p, key] h1
             = Returned [class_field h1 p ''methods'' key] h1 []"
    using tier_methods[OF u1 e1] by simp
  show ?thesis using a b c d by blast
qed

text \<open>
  Witness for C9: Proxy 2, whose Cache holds 1 for \<open>x\<close>; after the write of nil the
  entry is gone and the read of \<open>x\<close> calls the getter, function 0.
\<close>

theorem cachedsetindex_nil_removes_witness:
  "proxy_wf ex_heap 2
   \<and> cache_entry ex_heap 2 (VStr ''x'') = VNum 1
   \<and> out_values (run hslua_cachedsetindex [VUserdata 2, VStr ''x'', VNil] ex_heap) = Some []
   \<and> cache_entry (out_heap (run hslua_cachedsetindex [VUserdata 2, VStr ''x'', VNil] ex_heap))
        2 (VStr ''x'') = VNil
   \<and> class_field (out_heap (run hslua_cachedsetindex [VUserdata 2, VStr ''x'', VNil] ex_heap))
        2 ''getters'' (VStr ''x'') = VFun 0
   \<and> out_trace (run (hslua_cachedindex ex_cf) [VUserdata 2, VStr ''x'']
        (out_heap (run hslua_cachedsetindex [VUserdata 2, VStr ''x'', VNil] ex_heap)))
       = [Called (VFun 0) [VUserdata 2]]"
proof -
  let ?h1 = "out_heap (run hslua_cachedsetindex [VUserdata 2, VStr ''x'', VNil] ex_heap)"
  have a: "proxy_wf ex_heap 2" by (rule ex_proxy_wf)
  have b: "cache_entry ex_heap 2 (VStr ''x'') = VNum 1" by (simp add: cache_entry_def eval_defs)
  have k: "VStr ''x'' \<noteq> VNil" by simp
  have g: "class_field ?h1 2 ''getters'' (VStr ''x'') = VFun 0"
    by (simp add: class_field_def eval_defs)
  have n: "VFun 0 \<noteq> VNil" by simp
  note t = cachedsetindex_nil_removes[OF a, of "VStr ''x''"]
  from t k have t1: "run hslua_cachedsetindex [VUserdata 2, VStr ''x'', VNil] ex_heap
      = Returned [] ?h1 []" by blast
  have t1': "out_values (run hslua_cachedsetindex [VUserdata 2, VStr ''x'', VNil] ex_heap)
      = Some []" by (subst t1) simp
  from t have t2: "cache_entry ?h1 2 (VStr ''x'') = VNil" by blast
  from t g n have t3: "out_trace (run (hslua_cachedindex ex_cf) [VUserdata 2, VStr ''x''] ?h1)
       = [Called (VFun 0) [VUserdata 2]]" by blast
  show ?thesis using a b t1' t2 g t3 by blast
qed

text \<open>
  C10 (as stated: whenever the getter \<open>g\<close> returns nil, the Cache is left without an
  entry for the key and every later read calls \<open>g\<close> again). The getter is host code
  and may change the user value of the Proxy; the result is stored in the table that
  was fetched before the call. On Proxy 0, with host functions that return no value
  and attach table 7, the read of \<open>x\<close> calls the getter and returns nil, but the
  Cache of the Proxy is then table 7, which holds 1 for \<open>x\<close>: the next read returns
  1 and calls nothing, though the class still has the getter.
\<close>

theorem nil_getter_swapping_cache_not_called_again:
  "proxy_wf ex_heap 0
   \<and> cache_entry ex_heap 0 (VStr ''x'') = VNil
   \<and> class_field ex_heap 0 ''getters'' (VStr ''x'') = VFun 0
   \<and> luaD_call ex_cf_detach (VFun 0) [VUserdata 0] (with_cache ex_heap 0)
       = Inr ([], (with_cache ex_heap 0)
                    \<lparr>uservalue := (uservalue (with_cache ex_heap 0))(0 := VTable 7)\<rparr>)
   \<and> out_values (run (hslua_cachedindex ex_cf_detach) [VUserdata 0, VStr ''x''] ex_heap)
       = Some [VNil]
   \<and> out_trace (run (hslua_cachedindex ex_cf_detach) [VUserdata 0, VStr ''x''] ex_heap)
       = [Called (VFun 0) [VUserdata 0]]
   \<and> cache_entry
        (out_heap (run (hslua_cachedindex ex_cf_detach) [VUserdata 0, VStr ''x''] ex_heap))
        0 (VStr ''x'') = VNum 1
   \<and> class_field
        (out_heap (run (hslua_cachedindex ex_cf_detach) [VUserdata 0, VStr ''x''] ex_heap))
        0 ''getters'' (VStr ''x'') = VFun 0
   \<and> out_values (run (hslua_cachedindex ex_cf_detach) [VUserdata 0, VStr ''x'']
        (out_heap (run (hslua_cachedindex ex_cf_detach) [VUserdata 0, VStr ''x''] ex_heap)))
       = Some [VNum 1]
   \<and> out_trace (run (hslua_cachedindex ex_cf_detach) [VUserdata 0, VStr ''x'']
        (out_heap (run (hslua_cachedindex ex_cf_detach) [VUserdata 0, VStr ''x''] ex_heap)))
       = []"
  by (simp add: proxy_wf_def class_allocated_def allocated_def cache_entry_def class_field_def
      ex_cf_detach_def with_cache_def eval_defs)

text \<open>
  C10 (amended): let \<open>p\<close> be a well-formed Proxy whose Cache has no entry for \<open>key\<close>
  and whose class has a getter \<open>g\<close> for \<open>key\<close>. If the call of \<open>g\<close> returns with nil
  as first result (or with no result) and leaves the user value of \<open>p\<close> (the
  attachment of the Cache) as it was, then the read calls \<open>g\<close> once and returns nil,
  and in the heap \<open>h3\<close> it leaves the Proxy is well-formed and its Cache still has no
  entry for \<open>key\<close>. A read in \<open>h3\<close>, the class still having the getter \<open>g\<close>, calls
  \<open>g\<close> again; the premises hold again in \<open>h3\<close>, so this repeats for as long as \<open>g\<close>
  returns nil and leaves the user value alone.
\<close>

theorem cachedindex_nil_result_not_cached:
  fixes h p key cf
  defines "h3 \<equiv> out_heap (run (hslua_cachedindex cf) [VUserdata p, key] h)"
  assumes "proxy_wf h p" and "cache_entry h p key = VNil"
    and "class_field h p ''getters'' key = g" and "g \<noteq> VNil"
    and "luaD_call cf g [VUserdata p] (with_cache h p) = Inr (rs, h2)"
    and "hd (adjust_results 1 rs) = VNil"
    and "uservalue h2 p = uservalue (with_cache h p) p"
  shows "out_values (run (hslua_cachedindex cf) [VUserdata p, key] h) = Some [VNil]
       \<and> out_trace (run (hslua_cachedindex cf) [VUserdata p, key] h) = [Called g [VUserdata p]]
       \<and> proxy_wf h3 p
       \<and> cache_entry h3 p key = VNil
       \<and> (\<forall>cf'. class_field h3 p ''getters'' key = g \<longrightarrow>
            out_trace (run (hslua_cachedindex cf') [VUserdata p, key] h3)
              = [Called g [VUserdata p]])"
proof -
  let ?h1 = "with_cache h p"
  from with_cache_attached[OF assms(2)] obtain c where u: "uservalue ?h1 p = VTable c"
    by blast
  have miss: "luaH_get ?h1 c key = VNil"
    using with_cache_entry[OF assms(2), of key] assms(3) u by (simp add: cache_entry_def)
  have g: "class_field ?h1 p ''getters'' key = g"
    using with_cache_class[OF assms(2), of "''getters''" key] assms(4) by simp
  have r: "run (hslua_cachedindex cf) [VUserdata p, key] h
           = Returned [VNil] (luaH_store h2 c key VNil) [Called g [VUserdata p]]"
    using tier_getter[OF u miss g assms(5), of cf] assms(6,7)
      read_attaches_cache[OF assms(2), of cf key] by simp
  have h3: "h3 = luaH_store h2 c key VNil" unfolding h3_def using r by simp
  have u3: "uservalue h3 p = VTable c" using assms(8) u h3 by (simp add: luaH_store_def)
  have e3: "luaH_get h3 c key = VNil" using h3 by (simp add: luaH_store_def luaH_get_def)
  have w3: "proxy_wf h3 p" using u3 by (simp add: proxy_wf_def)
  have c3: "cache_entry h3 p key = VNil" using u3 e3 by (simp add: cache_entry_def)
  have again: "\<forall>cf'. class_field h3 p ''getters'' key = g \<longrightarrow>
                out_trace (run (hslua_cachedindex cf') [VUserdata p, key] h3)
                  = [Called g [VUserdata p]]"
  proof (intro allI impI)
    fix cf'
    assume a: "class_field h3 p ''getters'' key = g"
    show "out_trace (run (hslua_cachedindex cf') [VUserdata p, key] h3)
          = [Called g [VUserdata p]]"
      using tier_getter[OF u3 e3 a assms(5), of cf']
      by (simp split: sum.splits prod.splits)
  qed
  show ?thesis using r w3 c3 again by simp
qed

text \<open>
  Witness for C10 (amended): Proxy 0 and its getter for \<open>y\<close>, function 1, which
  returns no value and leaves the heap alone.
\<close>

theorem cachedindex_nil_result_not_cached_witness:
  "proxy_wf ex_heap 0
   \<and> cache_entry ex_heap 0 (VStr ''y'') = VNil
   \<and> class_field ex_heap 0 ''getters'' (VStr ''y'') = VFun 1
   \<and> luaD_call ex_cf (VFun 1) [VUserdata 0] (with_cache ex_heap 0)
       = Inr ([], with_cache ex_heap 0)
   \<and> hd (adjust_results 1 []) = VNil
   \<and> out_values (run (hslua_cachedindex ex_cf) [VUserdata 0, VStr ''y''] ex_heap) = Some [VNil]
   \<and> out_trace (run (hslua_cachedindex ex_cf) [VUserdata 0, VStr ''y''] ex_heap)
       = [Called (VFun 1) [VUserdata 0]]
   \<and> cache_entry (out_heap (run (hslua_cachedindex ex_cf) [VUserdata 0, VStr ''y''] ex_heap))
        0 (VStr ''y'') = VNil
   \<and> class_field (out_heap (run (hslua_cachedindex ex_cf) [VUserdata 0, VStr ''y''] ex_heap))
        0 ''getters'' (VStr ''y'') = VFun 1
   \<and> out_trace (run (hslua_cachedindex ex_cf) [VUserdata 0, VStr ''y'']
        (out_heap (run (hslua_cachedindex ex_cf) [VUserdata 0, VStr ''y''] ex_heap)))
       = [Called (VFun 1) [VUserdata 0]]"
proof -
  let ?h3 = "out_heap (run (hslua_cachedindex ex_cf) [VUserdata 0, VStr ''y''] ex_heap)"
  have a: "proxy_wf ex_heap 0" by (rule ex_proxy_wf)
  have b: "cache_entry ex_heap 0 (VStr ''y'') = VNil" by (simp add: cache_entry_def eval_defs)
  have c: "class_field ex_heap 0 ''getters'' (VStr ''y'') = VFun 1"
    by (simp add: class_field_def eval_defs)
  have d: "VFun 1 \<noteq> VNil" by simp
  have e: "luaD_call ex_cf (VFun 1) [VUserdata 0] (with_cache ex_heap 0)
           = Inr ([], with_cache ex_heap 0)"
    by (rule ex_getter_call)
  have f: "hd (adjust_results 1 []) = VNil" by (simp add: adjust_results_def)
  have i: "uservalue (with_cache ex_heap 0) 0 = uservalue (with_cache ex_heap 0) 0" by simp
  have g3: "class_field ?h3 0 ''getters'' (VStr ''y'') = VFun 1"
    by (simp add: class_field_def eval_defs)
  note t = cachedindex_nil_result_not_cached[OF a b c d e f i]
  from t have t1: "out_values (run (hslua_cachedindex ex_cf) [VUserdata 0, VStr ''y''] ex_heap)
       = Some [VNil]" by (rule conjunct1)
  from t have t2: "out_trace (run (hslua_cachedindex ex_cf) [VUserdata 0, VStr ''y''] ex_heap)
       = [Called (VFun 1) [VUserdata 0]]" by blast
  from t have t3: "cache_entry ?h3 0 (VStr ''y'') = VNil" by blast
  from t g3 have t4: "out_trace (run (hslua_cachedindex ex_cf) [VUserdata 0, VStr ''y''] ?h3)
       = [Called (VFun 1) [VUserdata 0]]" by blast
  show ?thesis using a b c e f t1 t2 t3 g3 t4 by blast
qed

end
